theory Spec2Isabelle
  imports Complex_Main "HOL-Library.AList"
begin

section \<open>Values shared by the clients\<close>

text \<open>
  Exceptions are values. Only subclasses of Python's \<open>Exception\<close> appear: these are
  the ones an \<open>except Exception\<close> clause catches.
\<close>

datatype exn =
    TransportError
  | TypeError
  | AttributeError
  | ValueError
  | ParseError
  | JSONDecodeError
  | OverflowError
  | UnicodeEncodeError

text \<open>
  What \<open>response.json()\<close> and a caller's dictionary hold. Python floats are idealised
  as reals; the normaliser passes every value through unchanged.
\<close>

datatype json =
    JNull
  | JBool bool
  | JInt int
  | JFloat real
  | JStr string
  | JList "json list"
  | JObj "(string \<times> json) list"

text \<open>
  An HTTP response as the clients use it: the status code and the result of awaiting
  \<open>response.json()\<close>, which raises when the body is not JSON.
\<close>

record response =
  status :: int
  json_body :: "exn + json"

section \<open>Python floats\<close>

text \<open>
  A finite double is the real number it denotes. An arithmetic operation on doubles
  yields the exact result rounded to the nearest double; this rounding is the
  parameter \<open>rnd\<close> of every function below that computes with floats. A result
  whose magnitude reaches \<open>DBL_OVERFLOW\<close>, the midpoint between the largest double
  \<open>2 ^ 1024 - 2 ^ 971\<close> and \<open>2 ^ 1024\<close>, has no finite double to round to.
\<close>

definition DBL_OVERFLOW :: real where
  "DBL_OVERFLOW = 2 ^ 1024 - 2 ^ 970"

text \<open>\<open>a - b\<close> on two floats whose difference stays in range.\<close>

definition float_sub :: "(real \<Rightarrow> real) \<Rightarrow> real \<Rightarrow> real \<Rightarrow> real" where
  "float_sub rnd a b = rnd (a - b)"

text \<open>
  \<open>x ** n\<close> for a float \<open>x\<close> and an int \<open>n \<ge> 0\<close>: it is \<open>1.0\<close> for \<open>n = 0\<close> whatever
  \<open>x\<close> is, and it raises \<open>OverflowError\<close> when the result is out of range.
\<close>

definition float_pow :: "(real \<Rightarrow> real) \<Rightarrow> real \<Rightarrow> int \<Rightarrow> exn + real" where
  "float_pow rnd x n =
     (if n = 0 then Inr 1
      else if DBL_OVERFLOW \<le> \<bar>x ^ nat n\<bar> then Inl OverflowError
      else Inr (rnd (x ^ nat n)))"

text \<open>
  The rounding used in the examples: the identity. It is the rounding to the nearest
  double wherever the exact result is a double, as in every example below.
\<close>

definition exact :: "real \<Rightarrow> real" where
  "exact x = x"

section \<open>utils.py: the retry executor\<close>

text \<open>
  The world an operation runs in. \<open>clock\<close> is what \<open>time.time()\<close> reads, in seconds.
  Clients extend the record with their own state.
\<close>

record world =
  clock :: real

text \<open>
  \<open>asyncio.sleep(t)\<close> returns at once for \<open>t \<le> 0\<close>; otherwise it is idealised as
  sleeping exactly \<open>t\<close> seconds.
\<close>

definition asyncio_sleep :: "real \<Rightarrow> 'a world_scheme \<Rightarrow> 'a world_scheme" where
  "asyncio_sleep t w = w\<lparr>clock := clock w + max 0 t\<rparr>"

text \<open>
  A record of one run of the executor, kept beside the program state: the outcome of
  every invocation of the operation, oldest first, and every duration the executor
  passed to \<open>asyncio.sleep\<close>, oldest first.
\<close>

record trace =
  attempts :: "(exn + response) list"
  backoffs :: "real list"

definition no_trace :: trace where
  "no_trace = \<lparr>attempts = [], backoffs = []\<rparr>"

definition invoked :: "(exn + response) \<Rightarrow> trace \<Rightarrow> trace" where
  "invoked out t = t\<lparr>attempts := attempts t @ [out]\<rparr>"

definition backed_off :: "real \<Rightarrow> trace \<Rightarrow> trace" where
  "backed_off d t = t\<lparr>backoffs := backoffs t @ [d]\<rparr>"

text \<open>
  The body of \<open>for attempt in range(max_retries + 1)\<close> in \<open>handle_rate_limit_retry\<close>,
  as a recursion over the attempt indices still to run. The empty list is the
  fall-through \<open>return None\<close>. The \<open>debug\<close> prints are left out.

  The power \<open>backoff_factor ** attempt\<close> can raise \<open>OverflowError\<close>. In the branch for
  status 429 it is computed inside the \<open>try\<close>: the \<open>except Exception\<close> clause catches
  the error and, as \<open>attempt < max_retries\<close> holds there, computes the same power
  again, so the error is raised a second time, now inside the handler, and leaves the
  function. In the handler for an exception of the operation the power is computed
  once, with the same effect.
\<close>

fun retry_attempts ::
  "(real \<Rightarrow> real) \<Rightarrow> ('a world_scheme \<Rightarrow> (exn + response) \<times> 'a world_scheme) \<Rightarrow> int \<Rightarrow> real \<Rightarrow>
   int list \<Rightarrow> 'a world_scheme \<Rightarrow> trace \<Rightarrow> (exn + response option) \<times> 'a world_scheme \<times> trace" where
  "retry_attempts rnd request_func max_retries backoff_factor [] w t = (Inr None, w, t)"
| "retry_attempts rnd request_func max_retries backoff_factor (attempt # rest) w t =
     (case request_func w of
        (Inr resp, w1) \<Rightarrow>
          (if status resp = 200 then (Inr (Some resp), w1, invoked (Inr resp) t)
           else if status resp = 429 then
             (if attempt < max_retries then
                (case float_pow rnd backoff_factor attempt of
                   Inl overflow \<Rightarrow> (Inl overflow, w1, invoked (Inr resp) t)
                 | Inr wait_time \<Rightarrow>
                     retry_attempts rnd request_func max_retries backoff_factor rest
                       (asyncio_sleep wait_time w1)
                       (backed_off wait_time (invoked (Inr resp) t)))
              else (Inr (Some resp), w1, invoked (Inr resp) t))
           else (Inr (Some resp), w1, invoked (Inr resp) t))
      | (Inl e, w1) \<Rightarrow>
          (if attempt < max_retries then
             (case float_pow rnd backoff_factor attempt of
                Inl overflow \<Rightarrow> (Inl overflow, w1, invoked (Inl e) t)
              | Inr wait_time \<Rightarrow>
                  retry_attempts rnd request_func max_retries backoff_factor rest
                    (asyncio_sleep wait_time w1)
                    (backed_off wait_time (invoked (Inl e) t)))
           else (Inl e, w1, invoked (Inl e) t)))"

text \<open>\<open>range(max_retries + 1)\<close> is the list \<open>[0..max_retries]\<close>, empty when \<open>max_retries < 0\<close>.\<close>

definition handle_rate_limit_retry ::
  "(real \<Rightarrow> real) \<Rightarrow> ('a world_scheme \<Rightarrow> (exn + response) \<times> 'a world_scheme) \<Rightarrow> int \<Rightarrow> real \<Rightarrow>
   'a world_scheme \<Rightarrow> (exn + response option) \<times> 'a world_scheme \<times> trace" where
  "handle_rate_limit_retry rnd request_func max_retries backoff_factor w =
     retry_attempts rnd request_func max_retries backoff_factor [0..max_retries] w no_trace"

text \<open>
  The world in which invocation number \<open>i\<close> (counted from 0) of the operation starts
  when every earlier invocation was followed by the executor's back-off sleep: the
  operation has then run \<open>i\<close> times. Where the power raises there is no sleep.
\<close>

fun world_before ::
  "(real \<Rightarrow> real) \<Rightarrow> ('a world_scheme \<Rightarrow> (exn + response) \<times> 'a world_scheme) \<Rightarrow> real \<Rightarrow>
   'a world_scheme \<Rightarrow> nat \<Rightarrow> 'a world_scheme" where
  "world_before rnd request_func backoff_factor w 0 = w"
| "world_before rnd request_func backoff_factor w (Suc i) =
     (case float_pow rnd backoff_factor (int i) of
        Inr wait_time \<Rightarrow>
          asyncio_sleep wait_time (snd (request_func (world_before rnd request_func backoff_factor w i)))
      | Inl overflow \<Rightarrow> snd (request_func (world_before rnd request_func backoff_factor w i)))"

text \<open>
  Sample operations in a world that counts their invocations: \<open>busy\<close> is rate-limited
  on every invocation, \<open>thaws k\<close> is rate-limited on its first \<open>k\<close> invocations.
\<close>

record counted = world +
  calls :: nat

definition busy :: "counted \<Rightarrow> (exn + response) \<times> counted" where
  "busy w = (Inr \<lparr>status = 429, json_body = Inl JSONDecodeError\<rparr>, w\<lparr>calls := calls w + 1\<rparr>)"

definition thaws :: "nat \<Rightarrow> counted \<Rightarrow> (exn + response) \<times> counted" where
  "thaws k w =
     (Inr \<lparr>status = (if calls w < k then 429 else 200), json_body = Inr JNull\<rparr>,
      w\<lparr>calls := calls w + 1\<rparr>)"

section \<open>utils.py: the rate limiter\<close>

record RateLimiter =
  delay :: real
  last_request_time :: real

text \<open>\<open>RateLimiter.__init__\<close>: the time of the last request starts at \<open>0.0\<close>.\<close>

definition RateLimiter_init :: "real \<Rightarrow> RateLimiter" where
  "RateLimiter_init d = \<lparr>delay = d, last_request_time = 0\<rparr>"

text \<open>
  \<open>RateLimiter.wait\<close>. Both subtractions are float operations. The first component of
  the result tells whether the call suspended, and for how long: it is the argument of
  the one \<open>asyncio.sleep\<close>. The clock is read a second time after the sleep and stored.
\<close>

definition wait ::
  "(real \<Rightarrow> real) \<Rightarrow> RateLimiter \<Rightarrow> 'a world_scheme \<Rightarrow> real option \<times> RateLimiter \<times> 'a world_scheme" where
  "wait rnd self w =
     (let current_time = clock w;
          time_since_last = float_sub rnd current_time (last_request_time self)
      in if time_since_last < delay self then
           (let wait_time = float_sub rnd (delay self) time_since_last;
                w1 = asyncio_sleep wait_time w
            in (Some wait_time, self\<lparr>last_request_time := clock w1\<rparr>, w1))
         else (None, self\<lparr>last_request_time := clock w\<rparr>, w))"

section \<open>models.py: the canonical records\<close>

text \<open>
  A Python \<open>dict\<close> with string keys is an association list in insertion order.
  \<open>d[k] = v\<close> is \<^const>\<open>AList.update\<close>: it replaces the value of an existing key in
  place and appends a new key at the end. \<open>k in d\<close> is \<open>map_of d k \<noteq> None\<close>.
\<close>

type_synonym dict = "(string \<times> json) list"

text \<open>\<open>field_mapping.get(key, key)\<close> for a rename table.\<close>

definition rename :: "(string \<times> string) list \<Rightarrow> string \<Rightarrow> string" where
  "rename field_mapping key = (case map_of field_mapping key of Some new_key \<Rightarrow> new_key | None \<Rightarrow> key)"

text \<open>A keyword argument that has a default in the dataclass.\<close>

definition kwarg :: "dict \<Rightarrow> string \<Rightarrow> json \<Rightarrow> json" where
  "kwarg kwargs key dflt = (case map_of kwargs key of Some v \<Rightarrow> v | None \<Rightarrow> dflt)"

subsection \<open>ArxivPaper\<close>

text \<open>
  The record of the preprint repository. \<open>published_date\<close> is \<open>None\<close> when the
  \<open>published\<close> element of the feed has no text: the parser stores the element's text as
  it is.
\<close>

record ArxivPaper =
  title :: string
  authors :: "string list"
  abstract :: string
  arxiv_id :: string
  published_date :: "string option"
  pdf_url :: string
  categories :: "string list"

subsection \<open>SemanticScholarPaper\<close>

text \<open>
  A dataclass does not check the annotated types, so every field holds whatever JSON
  value the payload carried.
\<close>

record SemanticScholarPaper =
  paper_id :: json
  title :: json
  abstract :: json
  authors :: json
  year :: json
  citation_count :: json
  reference_count :: json
  influential_citation_count :: json
  venue :: json
  url :: json
  arxiv_id :: json
  doi :: json
  corpus_id :: json
  external_ids :: json
  publication_types :: json
  publication_date :: json
  journal :: json
  citations :: json
  references :: json
  embedding :: json
  tldr :: json

text \<open>The constructor's parameters without a default, in declaration order.\<close>

definition paper_required :: "string list" where
  "paper_required =
     [''paper_id'', ''title'', ''abstract'', ''authors'', ''year'', ''citation_count'',
      ''reference_count'', ''influential_citation_count'', ''venue'', ''url'', ''arxiv_id'',
      ''doi'', ''corpus_id'', ''external_ids'', ''publication_types'', ''publication_date'',
      ''journal'']"

text \<open>The constructor's parameters that default to \<open>None\<close>.\<close>

definition paper_optional :: "string list" where
  "paper_optional = [''citations'', ''references'', ''embedding'', ''tldr'']"

text \<open>\<open>valid_fields\<close>: the keys of \<open>inspect.signature(cls).parameters\<close>.\<close>

definition paper_valid_fields :: "string list" where
  "paper_valid_fields = paper_required @ paper_optional"

text \<open>How the constructor binds keyword arguments to the fields.\<close>

definition paper_bind :: "dict \<Rightarrow> SemanticScholarPaper" where
  "paper_bind kwargs = \<lparr>
     paper_id = kwarg kwargs ''paper_id'' JNull,
     title = kwarg kwargs ''title'' JNull,
     abstract = kwarg kwargs ''abstract'' JNull,
     authors = kwarg kwargs ''authors'' JNull,
     year = kwarg kwargs ''year'' JNull,
     citation_count = kwarg kwargs ''citation_count'' JNull,
     reference_count = kwarg kwargs ''reference_count'' JNull,
     influential_citation_count = kwarg kwargs ''influential_citation_count'' JNull,
     venue = kwarg kwargs ''venue'' JNull,
     url = kwarg kwargs ''url'' JNull,
     arxiv_id = kwarg kwargs ''arxiv_id'' JNull,
     doi = kwarg kwargs ''doi'' JNull,
     corpus_id = kwarg kwargs ''corpus_id'' JNull,
     external_ids = kwarg kwargs ''external_ids'' JNull,
     publication_types = kwarg kwargs ''publication_types'' JNull,
     publication_date = kwarg kwargs ''publication_date'' JNull,
     journal = kwarg kwargs ''journal'' JNull,
     citations = kwarg kwargs ''citations'' JNull,
     references = kwarg kwargs ''references'' JNull,
     embedding = kwarg kwargs ''embedding'' JNull,
     tldr = kwarg kwargs ''tldr'' JNull\<rparr>"

text \<open>
  \<open>cls(**kwargs)\<close> for \<open>SemanticScholarPaper\<close>: a keyword that is no parameter, or a
  parameter without default that is not given, raises \<open>TypeError\<close>.
\<close>

definition SemanticScholarPaper_init :: "dict \<Rightarrow> exn + SemanticScholarPaper" where
  "SemanticScholarPaper_init kwargs =
     (if \<exists>k \<in> set (map fst kwargs). k \<notin> set paper_valid_fields then Inl TypeError
      else if \<exists>k \<in> set paper_required. map_of kwargs k = None then Inl TypeError
      else Inr (paper_bind kwargs))"

definition paper_field_mapping :: "(string \<times> string) list" where
  "paper_field_mapping =
     [(''paperId'', ''paper_id''),
      (''citationCount'', ''citation_count''),
      (''referenceCount'', ''reference_count''),
      (''influentialCitationCount'', ''influential_citation_count''),
      (''arxivId'', ''arxiv_id''),
      (''corpusId'', ''corpus_id''),
      (''externalIds'', ''external_ids''),
      (''publicationTypes'', ''publication_types''),
      (''publicationDate'', ''publication_date'')]"

definition paper_defaults :: dict where
  "paper_defaults =
     [(''citation_count'', JInt 0),
      (''reference_count'', JInt 0),
      (''influential_citation_count'', JInt 0),
      (''authors'', JList []),
      (''arxiv_id'', JNull),
      (''doi'', JNull),
      (''corpus_id'', JNull)]"

text \<open>The loop \<open>for key, value in data.items()\<close> of \<open>SemanticScholarPaper.from_dict\<close>.\<close>

definition paper_convert :: "dict \<Rightarrow> dict \<Rightarrow> dict" where
  "paper_convert items converted_data =
     fold (\<lambda>(key, value) converted.
             let new_key = rename paper_field_mapping key
             in if new_key \<in> set paper_valid_fields then AList.update new_key value converted
                else converted)
          items converted_data"

text \<open>The loop \<open>for key, default_value in defaults.items()\<close>.\<close>

definition paper_fill_defaults :: "dict \<Rightarrow> dict \<Rightarrow> dict" where
  "paper_fill_defaults defaults converted_data =
     fold (\<lambda>(key, default_value) converted.
             if map_of converted key = None then AList.update key default_value converted
             else converted)
          defaults converted_data"

text \<open>
  \<open>SemanticScholarPaper.from_dict\<close>. \<open>data.items()\<close> exists only when \<open>data\<close> is a
  dictionary; on any other value the attribute lookup raises.
\<close>

definition SemanticScholarPaper_from_dict :: "json \<Rightarrow> exn + SemanticScholarPaper" where
  "SemanticScholarPaper_from_dict data =
     (case data of
        JObj items \<Rightarrow>
          SemanticScholarPaper_init (paper_fill_defaults paper_defaults (paper_convert items []))
      | _ \<Rightarrow> Inl AttributeError)"

text \<open>\<open>to_dict\<close> is \<open>dataclasses.asdict\<close>: every field under its own name, in order.\<close>

definition SemanticScholarPaper_to_dict :: "SemanticScholarPaper \<Rightarrow> json" where
  "SemanticScholarPaper_to_dict p =
     JObj [(''paper_id'', paper_id p),
           (''title'', title p),
           (''abstract'', abstract p),
           (''authors'', authors p),
           (''year'', year p),
           (''citation_count'', citation_count p),
           (''reference_count'', reference_count p),
           (''influential_citation_count'', influential_citation_count p),
           (''venue'', venue p),
           (''url'', url p),
           (''arxiv_id'', arxiv_id p),
           (''doi'', doi p),
           (''corpus_id'', corpus_id p),
           (''external_ids'', external_ids p),
           (''publication_types'', publication_types p),
           (''publication_date'', publication_date p),
           (''journal'', journal p),
           (''citations'', citations p),
           (''references'', references p),
           (''embedding'', embedding p),
           (''tldr'', tldr p)]"

subsection \<open>AuthorInfo\<close>

record AuthorInfo =
  author_id :: json
  name :: json
  aliases :: json
  affiliations :: json
  homepage :: json
  paper_count :: json
  author_citation_count :: json
  h_index :: json

text \<open>
  The field \<open>citation_count\<close> of \<open>AuthorInfo\<close> is \<open>author_citation_count\<close> in the
  record above; its keyword stays \<open>citation_count\<close>. No parameter has a default.
\<close>

definition author_fields :: "string list" where
  "author_fields =
     [''author_id'', ''name'', ''aliases'', ''affiliations'', ''homepage'', ''paper_count'',
      ''citation_count'', ''h_index'']"

definition author_bind :: "dict \<Rightarrow> AuthorInfo" where
  "author_bind kwargs = \<lparr>
     author_id = kwarg kwargs ''author_id'' JNull,
     name = kwarg kwargs ''name'' JNull,
     aliases = kwarg kwargs ''aliases'' JNull,
     affiliations = kwarg kwargs ''affiliations'' JNull,
     homepage = kwarg kwargs ''homepage'' JNull,
     paper_count = kwarg kwargs ''paper_count'' JNull,
     author_citation_count = kwarg kwargs ''citation_count'' JNull,
     h_index = kwarg kwargs ''h_index'' JNull\<rparr>"

text \<open>\<open>cls(**kwargs)\<close> for \<open>AuthorInfo\<close>.\<close>

definition AuthorInfo_init :: "dict \<Rightarrow> exn + AuthorInfo" where
  "AuthorInfo_init kwargs =
     (if \<exists>k \<in> set (map fst kwargs). k \<notin> set author_fields then Inl TypeError
      else if \<exists>k \<in> set author_fields. map_of kwargs k = None then Inl TypeError
      else Inr (author_bind kwargs))"

definition author_field_mapping :: "(string \<times> string) list" where
  "author_field_mapping =
     [(''authorId'', ''author_id''),
      (''paperCount'', ''paper_count''),
      (''citationCount'', ''citation_count''),
      (''hIndex'', ''h_index'')]"

text \<open>The loop of \<open>AuthorInfo.from_dict\<close>: every key is kept.\<close>

definition author_convert :: "dict \<Rightarrow> dict \<Rightarrow> dict" where
  "author_convert items converted_data =
     fold (\<lambda>(key, value) converted. AList.update (rename author_field_mapping key) value converted)
          items converted_data"

definition AuthorInfo_from_dict :: "json \<Rightarrow> exn + AuthorInfo" where
  "AuthorInfo_from_dict data =
     (case data of
        JObj items \<Rightarrow> AuthorInfo_init (author_convert items [])
      | _ \<Rightarrow> Inl AttributeError)"

section \<open>config.py\<close>

definition SEMANTIC_SCHOLAR_BASE_URL :: string where
  "SEMANTIC_SCHOLAR_BASE_URL = ''https://api.semanticscholar.org/graph/v1''"

definition DEFAULT_RATE_LIMIT_DELAY :: real where
  "DEFAULT_RATE_LIMIT_DELAY = 1"

definition MAX_RETRIES :: int where
  "MAX_RETRIES = 3"

definition BACKOFF_FACTOR :: real where
  "BACKOFF_FACTOR = 2"

definition BATCH_SIZE :: int where
  "BATCH_SIZE = 500"

definition PAPER_FIELDS :: "string list" where
  "PAPER_FIELDS =
     [''paperId'', ''title'', ''abstract'', ''authors'', ''year'', ''citationCount'',
      ''referenceCount'', ''influentialCitationCount'', ''venue'', ''url'', ''externalIds'',
      ''publicationTypes'', ''publicationDate'', ''journal'', ''tldr'', ''embedding'']"

definition AUTHOR_FIELDS :: "string list" where
  "AUTHOR_FIELDS =
     [''authorId'', ''name'', ''aliases'', ''affiliations'', ''homepage'',
      ''paperCount'', ''citationCount'', ''hIndex'']"

definition CITATION_FIELDS :: "string list" where
  "CITATION_FIELDS =
     [''paperId'', ''title'', ''abstract'', ''authors'', ''year'', ''citationCount'',
      ''venue'', ''url'', ''externalIds'']"

section \<open>utils.py: chunking\<close>

text \<open>\<open>range(0, stop, step)\<close> for a positive step.\<close>

definition range_step :: "nat \<Rightarrow> nat \<Rightarrow> nat list" where
  "range_step stop step = map (\<lambda>j. j * step) [0..<(stop + step - 1) div step]"

text \<open>
  \<open>chunk_list\<close>. \<open>range\<close> raises \<open>ValueError\<close> for a step of 0 and is empty for a
  negative step; for a positive step every start index is within the list, and the
  slice \<open>lst[i:i + chunk_size]\<close> takes \<open>chunk_size\<close> elements from index \<open>i\<close> on.
\<close>

definition chunk_list :: "'a list \<Rightarrow> int \<Rightarrow> exn + 'a list list" where
  "chunk_list lst chunk_size =
     (if chunk_size = 0 then Inl ValueError
      else if chunk_size < 0 then Inr []
      else Inr (map (\<lambda>i. take (nat chunk_size) (drop i lst))
                    (range_step (length lst) (nat chunk_size))))"

section \<open>semantic_scholar_client.py\<close>

text \<open>
  What the client hands to the HTTP session: \<open>session.get(url, params=params)\<close> or
  \<open>session.post(url, json=payload)\<close>.
\<close>

datatype request =
    Get string dict
  | Post string json

text \<open>
  The client object together with the world it runs in: its rate limiter, its base
  URL, and the requests sent so far, oldest first. The \<open>debug\<close> flag is off: nothing is
  printed or saved.
\<close>

record client = world +
  rate_limiter :: RateLimiter
  base_url :: string
  sent :: "request list"

text \<open>\<open>SemanticScholarClient.__init__\<close>, in a world where the clock reads \<open>now\<close>.\<close>

definition SemanticScholarClient_init :: "real \<Rightarrow> client" where
  "SemanticScholarClient_init now =
     \<lparr>clock = now,
      rate_limiter = RateLimiter_init DEFAULT_RATE_LIMIT_DELAY,
      base_url = SEMANTIC_SCHOLAR_BASE_URL,
      sent = []\<rparr>"

text \<open>
  The network is a parameter \<open>net\<close>: \<open>net n req\<close> is what the session answers to the
  request \<open>req\<close> when \<open>n\<close> requests were sent before it, a response or a raised
  exception.
\<close>

type_synonym network = "nat \<Rightarrow> request \<Rightarrow> exn + response"

definition session_send ::
  "network \<Rightarrow> request \<Rightarrow> 'a client_scheme \<Rightarrow> (exn + response) \<times> 'a client_scheme" where
  "session_send net req s = (net (length (sent s)) req, s\<lparr>sent := sent s @ [req]\<rparr>)"

text \<open>The closure \<open>make_request\<close> every method defines: wait for the limiter, then send.\<close>

definition make_request ::
  "(real \<Rightarrow> real) \<Rightarrow> network \<Rightarrow> request \<Rightarrow> 'a client_scheme \<Rightarrow> (exn + response) \<times> 'a client_scheme" where
  "make_request rnd net req s =
     (case wait rnd (rate_limiter s) s of
        (slept, limiter, s1) \<Rightarrow> session_send net req (s1\<lparr>rate_limiter := limiter\<rparr>))"

text \<open>\<open>sep.join(parts)\<close>.\<close>

fun join :: "string \<Rightarrow> string list \<Rightarrow> string" where
  "join sep [] = []"
| "join sep [x] = x"
| "join sep (x # y # ys) = x @ sep @ join sep (y # ys)"

text \<open>\<open>str(n)\<close> for an int, as an f-string formats \<open>{limit}\<close> and \<open>{offset}\<close>.\<close>

function decimal :: "nat \<Rightarrow> string" where
  "decimal n =
     (if n < 10 then [char_of (48 + n)]
      else decimal (n div 10) @ [char_of (48 + n mod 10)])"
  by pat_completeness auto
termination
  by (relation "measure (\<lambda>n. n)") auto

definition py_str :: "int \<Rightarrow> string" where
  "py_str n = (if n < 0 then CHR ''-'' # decimal (nat (- n)) else decimal (nat n))"

text \<open>The truth value of a JSON value in an \<open>if\<close>.\<close>

fun truthy :: "json \<Rightarrow> bool" where
  "truthy JNull = False"
| "truthy (JBool b) = b"
| "truthy (JInt n) = (n \<noteq> 0)"
| "truthy (JFloat x) = (x \<noteq> 0)"
| "truthy (JStr s) = (s \<noteq> [])"
| "truthy (JList xs) = (xs \<noteq> [])"
| "truthy (JObj kvs) = (kvs \<noteq> [])"

text \<open>
  What \<open>for x in data\<close> runs over: the elements of a list, the keys of a dictionary,
  the characters of a string; any other value is not iterable.
\<close>

fun py_iter :: "json \<Rightarrow> exn + json list" where
  "py_iter (JList xs) = Inr xs"
| "py_iter (JObj kvs) = Inr (map (\<lambda>kv. JStr (fst kv)) kvs)"
| "py_iter (JStr s) = Inr (map (\<lambda>c. JStr [c]) s)"
| "py_iter _ = Inl TypeError"

text \<open>\<open>data.get(key, default)\<close>: only a dictionary has \<open>get\<close>.\<close>

fun py_get :: "json \<Rightarrow> string \<Rightarrow> json \<Rightarrow> exn + json" where
  "py_get (JObj kvs) key dflt = Inr (kwarg kvs key dflt)"
| "py_get _ key dflt = Inl AttributeError"

text \<open>What \<open>for x in data.get(key, [])\<close> runs over.\<close>

definition listed :: "string \<Rightarrow> json \<Rightarrow> exn + json list" where
  "listed key data =
     (case py_get data key (JList []) of
        Inl e \<Rightarrow> Inl e
      | Inr listing \<Rightarrow> py_iter listing)"

text \<open>
  The block every method ends with, for the request \<open>req\<close> its \<open>make_request\<close> sends:

  \<^verbatim>\<open>response = await handle_rate_limit_retry(make_request, debug=self.debug)\<close>
  \<^verbatim>\<open>if response and response.status == 200:\<close>
  \<^verbatim>\<open>    data = await response.json()\<close>
  \<^verbatim>\<open>    ...\<close>
  \<^verbatim>\<open>else:\<close>
  \<^verbatim>\<open>    return ...\<close>

  \<open>on_ok\<close> is the method's code after \<open>data\<close> is bound, \<open>absent\<close> what its \<open>else\<close>
  branch returns. No method has a \<open>try\<close> of its own: an exception raised by the
  executor, by \<open>response.json()\<close> or by \<open>on_ok\<close> leaves the method.
\<close>

definition fetch ::
  "(real \<Rightarrow> real) \<Rightarrow> network \<Rightarrow> request \<Rightarrow> (json \<Rightarrow> exn + 'r) \<Rightarrow> 'r \<Rightarrow> 'a client_scheme \<Rightarrow>
   (exn + 'r) \<times> 'a client_scheme" where
  "fetch rnd net req on_ok absent s =
     (case handle_rate_limit_retry rnd (make_request rnd net req) MAX_RETRIES BACKOFF_FACTOR s of
        (Inl e, s1, t) \<Rightarrow> (Inl e, s1)
      | (Inr None, s1, t) \<Rightarrow> (Inr absent, s1)
      | (Inr (Some resp), s1, t) \<Rightarrow>
          (if status resp = 200 then
             (case json_body resp of
                Inl e \<Rightarrow> (Inl e, s1)
              | Inr data \<Rightarrow>
                  (case on_ok data of
                     Inl e \<Rightarrow> (Inl e, s1)
                   | Inr result \<Rightarrow> (Inr result, s1)))
           else (Inr absent, s1)))"

text \<open>
  In the methods below the arguments \<open>paper_id\<close> and \<open>author_id\<close> are \<open>ident\<close>,
  \<open>fields\<close> is \<open>field_list\<close>, and \<open>year\<close>, \<open>venue\<close>, \<open>publication_types\<close>, \<open>limit\<close> and
  \<open>offset\<close> are \<open>year_arg\<close>, \<open>venue_arg\<close>, \<open>types_arg\<close>, \<open>limit_arg\<close> and \<open>offset_arg\<close>,
  as the record fields own these names.
\<close>

subsection \<open>get_paper\<close>

definition get_paper ::
  "(real \<Rightarrow> real) \<Rightarrow> network \<Rightarrow> string \<Rightarrow> string list option \<Rightarrow> 'a client_scheme \<Rightarrow>
   (exn + SemanticScholarPaper option) \<times> 'a client_scheme" where
  "get_paper rnd net ident field_list s =
     (let fields_str = join '','' (case field_list of None \<Rightarrow> PAPER_FIELDS | Some fs \<Rightarrow> fs);
          url = base_url s @ ''/paper/'' @ ident @ ''?fields='' @ fields_str
      in fetch rnd net (Get url [])
           (\<lambda>data. case SemanticScholarPaper_from_dict data of
                      Inl e \<Rightarrow> Inl e
                    | Inr paper \<Rightarrow> Inr (Some paper))
           None s)"

subsection \<open>get_paper_authors\<close>

text \<open>The loop body \<open>authors.append(AuthorInfo.from_dict(author_data))\<close>.\<close>

fun author_all :: "json list \<Rightarrow> AuthorInfo list \<Rightarrow> exn + AuthorInfo list" where
  "author_all [] acc = Inr acc"
| "author_all (author_data # rest) acc =
     (case AuthorInfo_from_dict author_data of
        Inl e \<Rightarrow> Inl e
      | Inr author \<Rightarrow> author_all rest (acc @ [author]))"

definition get_paper_authors ::
  "(real \<Rightarrow> real) \<Rightarrow> network \<Rightarrow> string \<Rightarrow> string list option \<Rightarrow> 'a client_scheme \<Rightarrow>
   (exn + AuthorInfo list) \<times> 'a client_scheme" where
  "get_paper_authors rnd net ident field_list s =
     (let fields_str = join '','' (case field_list of None \<Rightarrow> AUTHOR_FIELDS | Some fs \<Rightarrow> fs);
          url = base_url s @ ''/paper/'' @ ident @ ''/authors?fields='' @ fields_str
      in fetch rnd net (Get url [])
           (\<lambda>data. case listed ''data'' data of
                      Inl e \<Rightarrow> Inl e
                    | Inr entries \<Rightarrow> author_all entries [])
           [] s)"

subsection \<open>get_paper_citations and get_paper_references\<close>

text \<open>
  The loop body of both methods, for the key \<open>citingPaper\<close> or \<open>citedPaper\<close>:
  the nested paper is normalised when it is truthy and skipped otherwise.
\<close>

fun nested_all :: "string \<Rightarrow> json list \<Rightarrow> SemanticScholarPaper list \<Rightarrow> exn + SemanticScholarPaper list" where
  "nested_all key [] acc = Inr acc"
| "nested_all key (citation_data # rest) acc =
     (case py_get citation_data key (JObj []) of
        Inl e \<Rightarrow> Inl e
      | Inr nested \<Rightarrow>
          (if truthy nested then
             (case SemanticScholarPaper_from_dict nested of
                Inl e \<Rightarrow> Inl e
              | Inr paper \<Rightarrow> nested_all key rest (acc @ [paper]))
           else nested_all key rest acc))"

definition get_paper_citations ::
  "(real \<Rightarrow> real) \<Rightarrow> network \<Rightarrow> string \<Rightarrow> string list option \<Rightarrow> int \<Rightarrow> int \<Rightarrow> 'a client_scheme \<Rightarrow>
   (exn + SemanticScholarPaper list) \<times> 'a client_scheme" where
  "get_paper_citations rnd net ident field_list limit_arg offset_arg s =
     (let fields_str = join '','' (case field_list of None \<Rightarrow> CITATION_FIELDS | Some fs \<Rightarrow> fs);
          url = base_url s @ ''/paper/'' @ ident @ ''/citations?fields='' @ fields_str
                @ ''&limit='' @ py_str limit_arg @ ''&offset='' @ py_str offset_arg
      in fetch rnd net (Get url [])
           (\<lambda>data. case listed ''data'' data of
                      Inl e \<Rightarrow> Inl e
                    | Inr entries \<Rightarrow> nested_all ''citingPaper'' entries [])
           [] s)"

definition get_paper_references ::
  "(real \<Rightarrow> real) \<Rightarrow> network \<Rightarrow> string \<Rightarrow> string list option \<Rightarrow> int \<Rightarrow> int \<Rightarrow> 'a client_scheme \<Rightarrow>
   (exn + SemanticScholarPaper list) \<times> 'a client_scheme" where
  "get_paper_references rnd net ident field_list limit_arg offset_arg s =
     (let fields_str = join '','' (case field_list of None \<Rightarrow> CITATION_FIELDS | Some fs \<Rightarrow> fs);
          url = base_url s @ ''/paper/'' @ ident @ ''/references?fields='' @ fields_str
                @ ''&limit='' @ py_str limit_arg @ ''&offset='' @ py_str offset_arg
      in fetch rnd net (Get url [])
           (\<lambda>data. case listed ''data'' data of
                      Inl e \<Rightarrow> Inl e
                    | Inr entries \<Rightarrow> nested_all ''citedPaper'' entries [])
           [] s)"

subsection \<open>search_papers\<close>

record SearchResult =
  total :: json
  offset :: json
  next_offset :: json
  papers :: "SemanticScholarPaper list"

text \<open>The loop body \<open>papers.append(SemanticScholarPaper.from_dict(paper_data))\<close>.\<close>

fun normalise_all :: "json list \<Rightarrow> SemanticScholarPaper list \<Rightarrow> exn + SemanticScholarPaper list" where
  "normalise_all [] acc = Inr acc"
| "normalise_all (paper_data # rest) acc =
     (case SemanticScholarPaper_from_dict paper_data of
        Inl e \<Rightarrow> Inl e
      | Inr paper \<Rightarrow> normalise_all rest (acc @ [paper]))"

text \<open>The query parameters of \<open>search_papers\<close>; an optional filter is added when truthy.\<close>

definition search_params ::
  "string \<Rightarrow> string option \<Rightarrow> string list option \<Rightarrow> string list option \<Rightarrow> string list option \<Rightarrow>
   int option \<Rightarrow> int \<Rightarrow> int \<Rightarrow> string list \<Rightarrow> dict" where
  "search_params query year_arg venue_arg fields_of_study types_arg min_citation_count limit_arg offset_arg field_list =
     (let params = [(''query'', JStr query), (''limit'', JInt limit_arg), (''offset'', JInt offset_arg),
                    (''fields'', JStr (join '','' field_list))];
          params = (case year_arg of Some y \<Rightarrow> if y \<noteq> [] then AList.update ''year'' (JStr y) params else params
                    | None \<Rightarrow> params);
          params = (case venue_arg of
                      Some v \<Rightarrow> if v \<noteq> [] then AList.update ''venue'' (JStr (join '','' v)) params else params
                    | None \<Rightarrow> params);
          params = (case fields_of_study of
                      Some f \<Rightarrow> if f \<noteq> [] then AList.update ''fieldsOfStudy'' (JStr (join '','' f)) params
                                else params
                    | None \<Rightarrow> params);
          params = (case types_arg of
                      Some p \<Rightarrow> if p \<noteq> [] then AList.update ''publicationTypes'' (JStr (join '','' p)) params
                                else params
                    | None \<Rightarrow> params);
          params = (case min_citation_count of
                      Some m \<Rightarrow> AList.update ''minCitationCount'' (JInt m) params
                    | None \<Rightarrow> params)
      in params)"

definition search_result_of :: "json \<Rightarrow> exn + SearchResult" where
  "search_result_of data =
     (case py_get data ''data'' (JList []) of
        Inl e \<Rightarrow> Inl e
      | Inr listing \<Rightarrow>
          (case py_iter listing of
             Inl e \<Rightarrow> Inl e
           | Inr entries \<Rightarrow>
               (case normalise_all entries [] of
                  Inl e \<Rightarrow> Inl e
                | Inr ps \<Rightarrow>
                    Inr \<lparr>total = kwarg (case data of JObj kvs \<Rightarrow> kvs | _ \<Rightarrow> []) ''total'' (JInt 0),
                         offset = kwarg (case data of JObj kvs \<Rightarrow> kvs | _ \<Rightarrow> []) ''offset'' (JInt 0),
                         next_offset = kwarg (case data of JObj kvs \<Rightarrow> kvs | _ \<Rightarrow> []) ''next'' JNull,
                         papers = ps\<rparr>)))"

definition empty_search_result :: SearchResult where
  "empty_search_result = \<lparr>total = JInt 0, offset = JInt 0, next_offset = JNull, papers = []\<rparr>"

definition search_papers ::
  "(real \<Rightarrow> real) \<Rightarrow> network \<Rightarrow> string \<Rightarrow> string option \<Rightarrow> string list option \<Rightarrow> string list option \<Rightarrow>
   string list option \<Rightarrow> int option \<Rightarrow> int \<Rightarrow> int \<Rightarrow> string list option \<Rightarrow> 'a client_scheme \<Rightarrow>
   (exn + SearchResult) \<times> 'a client_scheme" where
  "search_papers rnd net query year_arg venue_arg fields_of_study types_arg min_citation_count limit_arg offset_arg field_list s =
     (let params = search_params query year_arg venue_arg fields_of_study types_arg min_citation_count
                     limit_arg offset_arg (case field_list of None \<Rightarrow> PAPER_FIELDS | Some fs \<Rightarrow> fs);
          url = base_url s @ ''/paper/search''
      in fetch rnd net (Get url params) search_result_of empty_search_result s)"

subsection \<open>get_paper_bulk\<close>

text \<open>The inner loop \<open>for paper_data in data\<close>: entries that are not truthy are skipped.\<close>

fun bulk_entries :: "json list \<Rightarrow> SemanticScholarPaper list \<Rightarrow> exn + SemanticScholarPaper list" where
  "bulk_entries [] all_papers = Inr all_papers"
| "bulk_entries (paper_data # rest) all_papers =
     (if truthy paper_data then
        (case SemanticScholarPaper_from_dict paper_data of
           Inl e \<Rightarrow> Inl e
         | Inr paper \<Rightarrow> bulk_entries rest (all_papers @ [paper]))
      else bulk_entries rest all_papers)"

text \<open>
  The outer loop \<open>for i, chunk in enumerate(chunks)\<close>. A chunk whose answer is not 200
  leaves \<open>all_papers\<close> as it is.
\<close>

fun bulk_chunks ::
  "(real \<Rightarrow> real) \<Rightarrow> network \<Rightarrow> string list \<Rightarrow> string list list \<Rightarrow> SemanticScholarPaper list \<Rightarrow>
   'a client_scheme \<Rightarrow> (exn + SemanticScholarPaper list) \<times> 'a client_scheme" where
  "bulk_chunks rnd net field_list [] all_papers s = (Inr all_papers, s)"
| "bulk_chunks rnd net field_list (chunk # rest) all_papers s =
     (case fetch rnd net
             (Post (base_url s @ ''/paper/batch'')
                   (JObj [(''ids'', JList (map JStr chunk)), (''fields'', JList (map JStr field_list))]))
             (\<lambda>data. case py_iter data of
                        Inl e \<Rightarrow> Inl e
                      | Inr entries \<Rightarrow> bulk_entries entries all_papers)
             all_papers s of
        (Inl e, s1) \<Rightarrow> (Inl e, s1)
      | (Inr all_papers', s1) \<Rightarrow> bulk_chunks rnd net field_list rest all_papers' s1)"

definition get_paper_bulk ::
  "(real \<Rightarrow> real) \<Rightarrow> network \<Rightarrow> string list \<Rightarrow> string list option \<Rightarrow> 'a client_scheme \<Rightarrow>
   (exn + SemanticScholarPaper list) \<times> 'a client_scheme" where
  "get_paper_bulk rnd net paper_ids field_list s =
     (case chunk_list paper_ids BATCH_SIZE of
        Inl e \<Rightarrow> (Inl e, s)
      | Inr chunks \<Rightarrow>
          bulk_chunks rnd net (case field_list of None \<Rightarrow> PAPER_FIELDS | Some fs \<Rightarrow> fs) chunks [] s)"



subsection \<open>get_author\<close>

definition get_author ::
  "(real \<Rightarrow> real) \<Rightarrow> network \<Rightarrow> string \<Rightarrow> string list option \<Rightarrow> 'a client_scheme \<Rightarrow>
   (exn + AuthorInfo option) \<times> 'a client_scheme" where
  "get_author rnd net ident field_list s =
     (let fields_str = join '','' (case field_list of None \<Rightarrow> AUTHOR_FIELDS | Some fs \<Rightarrow> fs);
          url = base_url s @ ''/author/'' @ ident @ ''?fields='' @ fields_str
      in fetch rnd net (Get url [])
           (\<lambda>data. case AuthorInfo_from_dict data of
                      Inl e \<Rightarrow> Inl e
                    | Inr author \<Rightarrow> Inr (Some author))
           None s)"

subsection \<open>get_author_papers\<close>

definition get_author_papers ::
  "(real \<Rightarrow> real) \<Rightarrow> network \<Rightarrow> string \<Rightarrow> string list option \<Rightarrow> int \<Rightarrow> int \<Rightarrow> 'a client_scheme \<Rightarrow>
   (exn + SemanticScholarPaper list) \<times> 'a client_scheme" where
  "get_author_papers rnd net ident field_list limit_arg offset_arg s =
     (let fields_str = join '','' (case field_list of None \<Rightarrow> PAPER_FIELDS | Some fs \<Rightarrow> fs);
          url = base_url s @ ''/author/'' @ ident @ ''/papers?fields='' @ fields_str
                @ ''&limit='' @ py_str limit_arg @ ''&offset='' @ py_str offset_arg
      in fetch rnd net (Get url [])
           (\<lambda>data. case listed ''data'' data of
                      Inl e \<Rightarrow> Inl e
                    | Inr entries \<Rightarrow> normalise_all entries [])
           [] s)"

subsection \<open>search_authors\<close>

definition search_authors ::
  "(real \<Rightarrow> real) \<Rightarrow> network \<Rightarrow> string \<Rightarrow> string list option \<Rightarrow> int \<Rightarrow> int \<Rightarrow> 'a client_scheme \<Rightarrow>
   (exn + AuthorInfo list) \<times> 'a client_scheme" where
  "search_authors rnd net query field_list limit_arg offset_arg s =
     (let params = [(''query'', JStr query), (''limit'', JInt limit_arg), (''offset'', JInt offset_arg),
                    (''fields'', JStr (join '','' (case field_list of None \<Rightarrow> AUTHOR_FIELDS | Some fs \<Rightarrow> fs)))];
          url = base_url s @ ''/author/search''
      in fetch rnd net (Get url params)
           (\<lambda>data. case listed ''data'' data of
                      Inl e \<Rightarrow> Inl e
                    | Inr entries \<Rightarrow> author_all entries [])
           [] s)"

subsection \<open>get_paper_recommendations\<close>

definition get_paper_recommendations ::
  "(real \<Rightarrow> real) \<Rightarrow> network \<Rightarrow> string \<Rightarrow> string list option \<Rightarrow> int \<Rightarrow> 'a client_scheme \<Rightarrow>
   (exn + SemanticScholarPaper list) \<times> 'a client_scheme" where
  "get_paper_recommendations rnd net ident field_list limit_arg s =
     (let params = [(''fields'', JStr (join '','' (case field_list of None \<Rightarrow> PAPER_FIELDS | Some fs \<Rightarrow> fs))),
                    (''limit'', JInt limit_arg)];
          url = base_url s @ ''/recommendations/v1/papers/forpaper/'' @ ident
      in fetch rnd net (Get url params)
           (\<lambda>data. case listed ''recommendedPapers'' data of
                      Inl e \<Rightarrow> Inl e
                    | Inr entries \<Rightarrow> normalise_all entries [])
           [] s)"

subsection \<open>Samples\<close>

text \<open>
  A client created when the clock reads \<open>1762000000\<close> and four networks: one that is
  down, one that answers every request with status 503, one that answers every request
  with the batch \<open>[paper_X, null]\<close>, and one that rate-limits the first request and
  answers the following ones with that batch.
\<close>

definition client0 :: client where
  "client0 = SemanticScholarClient_init 1762000000"

definition net_down :: network where
  "net_down n req = Inl TransportError"



definition net_unavailable :: network where
  "net_unavailable n req = Inr \<lparr>status = 503, json_body = Inl JSONDecodeError\<rparr>"


section \<open>arxiv_client.py: parsing the Atom feed\<close>

text \<open>
  A parsed XML element as \<open>xml.etree.ElementTree\<close> presents it: its expanded tag, its
  attributes, its text (\<open>None\<close> when the element has none) and its direct children.
\<close>

datatype element = Element (tag: string) (attrib: "(string \<times> string) list")
  (elem_text: "string option") (children: "element list")

text \<open>The path \<open>atom:name\<close> under \<open>ns = {'atom': 'http://www.w3.org/2005/Atom'}\<close>.\<close>

definition atom :: "string \<Rightarrow> string" where
  "atom local = ''{http://www.w3.org/2005/Atom}'' @ local"

text \<open>\<open>element.find(path, ns)\<close> and \<open>element.findall(path, ns)\<close> look at direct children.\<close>

definition find_elem :: "string \<Rightarrow> element \<Rightarrow> element option" where
  "find_elem path e = List.find (\<lambda>c. tag c = path) (children e)"

definition findall :: "string \<Rightarrow> element \<Rightarrow> element list" where
  "findall path e = filter (\<lambda>c. tag c = path) (children e)"

subsection \<open>String methods\<close>

text \<open>
  Strings are sequences of code points below 256. \<open>str.isspace\<close> on these: tab to
  carriage return, the four separators \<open>0x1c\<close> to \<open>0x1f\<close>, the space, \<open>0x85\<close> and \<open>0xa0\<close>.
\<close>

definition py_isspace :: "char \<Rightarrow> bool" where
  "py_isspace c = (of_char c \<in> set [9, 10, 11, 12, 13, 28, 29, 30, 31, 32, 133, 160 :: nat])"

definition strip :: "string \<Rightarrow> string" where
  "strip s = rev (dropWhile py_isspace (rev (dropWhile py_isspace s)))"

text \<open>\<open>s.replace(old, new)\<close> for single characters.\<close>

definition replace_char :: "char \<Rightarrow> char \<Rightarrow> string \<Rightarrow> string" where
  "replace_char old new s = map (\<lambda>c. if c = old then new else c) s"

definition newline :: char where
  "newline = CHR 0x0A"

text \<open>\<open>sub in s\<close>.\<close>

definition py_in :: "string \<Rightarrow> string \<Rightarrow> bool" where
  "py_in sub s = (\<exists>i \<in> set [0..<Suc (length s)]. take (length sub) (drop i s) = sub)"

text \<open>
  \<open>s.split(sep)\<close> for a separator that is not empty: the scan goes from left to right
  and resumes after each occurrence; \<open>cur\<close> holds the current piece, reversed.
\<close>

function split_on :: "string \<Rightarrow> string \<Rightarrow> string \<Rightarrow> string list" where
  "split_on sep cur s =
     (if sep = [] then []
      else if s = [] then [rev cur]
      else if take (length sep) s = sep then rev cur # split_on sep [] (drop (length sep) s)
      else split_on sep (hd s # cur) (tl s))"
  by pat_completeness auto
termination
  by (relation "measure (\<lambda>(sep, cur, s). length s)") auto

subsection \<open>_parse_entry\<close>

text \<open>
  Each step of \<open>_parse_entry\<close> that can raise returns \<open>None\<close> when it does; the
  \<open>except Exception\<close> around the body turns any exception into the result \<open>None\<close>.
\<close>

definition entry_title :: "element \<Rightarrow> string option" where
  "entry_title entry =
     (case find_elem (atom ''title'') entry of
        None \<Rightarrow> Some ''Unknown Title''
      | Some t \<Rightarrow> map_option (\<lambda>s. replace_char newline CHR '' '' (strip s)) (elem_text t))"

fun entry_authors :: "element list \<Rightarrow> string list option" where
  "entry_authors [] = Some []"
| "entry_authors (author # rest) =
     (case find_elem (atom ''name'') author of
        None \<Rightarrow> entry_authors rest
      | Some name_elem \<Rightarrow>
          (case elem_text name_elem of
             None \<Rightarrow> None
           | Some s \<Rightarrow> map_option ((#) (strip s)) (entry_authors rest)))"

definition entry_abstract :: "element \<Rightarrow> string option" where
  "entry_abstract entry =
     (case find_elem (atom ''summary'') entry of
        None \<Rightarrow> Some []
      | Some summary \<Rightarrow> map_option (\<lambda>s. replace_char newline CHR '' '' (strip s)) (elem_text summary))"

definition entry_arxiv_id :: "element \<Rightarrow> string option" where
  "entry_arxiv_id entry =
     (case find_elem (atom ''id'') entry of
        None \<Rightarrow> Some []
      | Some id_elem \<Rightarrow>
          (case elem_text id_elem of
             None \<Rightarrow> None
           | Some id_url \<Rightarrow>
               Some (if py_in ''/abs/'' id_url then last (split_on ''/abs/'' [] id_url) else [])))"

definition entry_published :: "element \<Rightarrow> string option" where
  "entry_published entry =
     (case find_elem (atom ''published'') entry of
        None \<Rightarrow> Some []
      | Some published \<Rightarrow> elem_text published)"

definition entry_pdf_url :: "element \<Rightarrow> string" where
  "entry_pdf_url entry =
     (case List.find (\<lambda>link. map_of (attrib link) ''type'' = Some ''application/pdf'')
             (findall (atom ''link'') entry) of
        None \<Rightarrow> []
      | Some link \<Rightarrow> (case map_of (attrib link) ''href'' of None \<Rightarrow> [] | Some href \<Rightarrow> href))"

definition entry_categories :: "element \<Rightarrow> string list" where
  "entry_categories entry =
     List.map_filter
       (\<lambda>category. case map_of (attrib category) ''term'' of
                      None \<Rightarrow> None
                    | Some term \<Rightarrow> if term \<noteq> [] then Some term else None)
       (findall (atom ''category'') entry)"

definition parse_entry :: "element \<Rightarrow> ArxivPaper option" where
  "parse_entry entry =
     (case entry_title entry of
        None \<Rightarrow> None
      | Some title_text \<Rightarrow>
     (case entry_authors (findall (atom ''author'') entry) of
        None \<Rightarrow> None
      | Some names \<Rightarrow>
     (case entry_abstract entry of
        None \<Rightarrow> None
      | Some summary_text \<Rightarrow>
     (case entry_arxiv_id entry of
        None \<Rightarrow> None
      | Some ident \<Rightarrow>
          Some \<lparr>ArxivPaper.title = title_text,
                ArxivPaper.authors = names,
                ArxivPaper.abstract = summary_text,
                ArxivPaper.arxiv_id = ident,
                published_date = entry_published entry,
                pdf_url = entry_pdf_url entry,
                categories = entry_categories entry\<rparr>))))"

subsection \<open>The response parsers\<close>

text \<open>
  \<open>ET.fromstring\<close> is a parameter: it returns the root element or raises. The parsers
  only hand \<open>xml_content\<close> to it, so the type of documents is left open. Only
  \<open>ParseError\<close> is caught.
\<close>

definition parse_arxiv_response ::
  "('doc \<Rightarrow> exn + element) \<Rightarrow> 'doc \<Rightarrow> exn + ArxivPaper option" where
  "parse_arxiv_response fromstring xml_content =
     (case fromstring xml_content of
        Inl e \<Rightarrow> if e = ParseError then Inr None else Inl e
      | Inr root_elem \<Rightarrow>
          (case find_elem (atom ''entry'') root_elem of
             None \<Rightarrow> Inr None
           | Some entry \<Rightarrow> Inr (parse_entry entry)))"

definition parse_arxiv_search_response ::
  "('doc \<Rightarrow> exn + element) \<Rightarrow> 'doc \<Rightarrow> exn + ArxivPaper list" where
  "parse_arxiv_search_response fromstring xml_content =
     (case fromstring xml_content of
        Inl e \<Rightarrow> if e = ParseError then Inr [] else Inl e
      | Inr root_elem \<Rightarrow> Inr (List.map_filter parse_entry (findall (atom ''entry'') root_elem)))"

text \<open>
  The spec's word for the title and the abstract is "whitespace-collapsed": every run
  of whitespace becomes one space and none is left at either end. This definition
  follows the spec's words, not the code.
\<close>

fun spec_words :: "string \<Rightarrow> string \<Rightarrow> string list" where
  "spec_words cur [] = (if cur = [] then [] else [rev cur])"
| "spec_words cur (c # cs) =
     (if py_isspace c then (if cur = [] then spec_words [] cs else rev cur # spec_words [] cs)
      else spec_words (c # cur) cs)"

definition spec_whitespace_collapsed :: "string \<Rightarrow> string" where
  "spec_whitespace_collapsed s = join '' '' (spec_words [] s)"

text \<open>Sample documents.\<close>

definition wrapped_title_entry :: element where
  "wrapped_title_entry =
     Element (atom ''entry'') [] None
       [Element (atom ''title'') [] (Some (''A'' @ [newline] @ ''  B'')) []]"

text \<open>
  A Python \<open>str\<close> as the list of its code points, which may be lone surrogates, and
  \<open>ET.fromstring\<close> on three documents: it first encodes the \<open>str\<close> as UTF-8, which
  raises \<open>UnicodeEncodeError\<close> on a surrogate; it parses the empty feed; the third
  document, \<open>unclosed_feed\<close>, is not well-formed.
\<close>

definition code_points :: "string \<Rightarrow> nat list" where
  "code_points s = map of_char s"

definition empty_feed :: "nat list" where
  "empty_feed = code_points ''<feed xmlns=\"http://www.w3.org/2005/Atom\"/>''"

definition unclosed_feed :: "nat list" where
  "unclosed_feed = code_points ''<feed><entry></feed>''"

definition surrogate_doc :: "nat list" where
  "surrogate_doc = code_points ''<a>'' @ [0xD800] @ code_points ''</a>''"

definition sample_fromstring :: "nat list \<Rightarrow> exn + element" where
  "sample_fromstring s =
     (if \<exists>c \<in> set s. 0xD800 \<le> c \<and> c \<le> 0xDFFF then Inl UnicodeEncodeError
      else if s = empty_feed then Inr (Element (atom ''feed'') [] None [])
      else Inl ParseError)"

section \<open>Properties of the retry executor\<close>

lemma float_pow_value:
  assumes "\<bar>x ^ i\<bar> < DBL_OVERFLOW"
  shows "float_pow rnd x (int i) = Inr (if i = 0 then 1 else rnd (x ^ i))"
  using assms by (simp add: float_pow_def)

text \<open>
  While the operation answers 429 and attempts are left, the executor sleeps and
  invokes the operation again: after \<open>k\<close> such rounds it stands in \<open>world_before \<dots> k\<close>.
\<close>

lemma retry_through_429:
  assumes limited: "\<And>i. i < k \<Longrightarrow> \<exists>resp. fst (f (world_before rnd f bf w0 i)) = Inr resp \<and> status resp = 429"
    and fits: "\<And>i. i < k \<Longrightarrow> \<bar>bf ^ i\<bar> < DBL_OVERFLOW"
    and bound: "int k \<le> mr"
  shows "j \<le> k \<Longrightarrow> k - j = n \<Longrightarrow>
     retry_attempts rnd f mr bf [int j..mr] (world_before rnd f bf w0 j) t =
     retry_attempts rnd f mr bf [int k..mr] (world_before rnd f bf w0 k)
       \<lparr>attempts = attempts t @ map (\<lambda>i. fst (f (world_before rnd f bf w0 i))) [j..<k],
        backoffs = backoffs t @ map (\<lambda>i. if i = 0 then 1 else rnd (bf ^ i)) [j..<k]\<rparr>"
proof (induction n arbitrary: j t)
  case 0
  then have jk: "j = k" by simp
  show ?case unfolding jk by (cases t) simp
next
  case (Suc n)
  then have lt: "j < k" by simp
  obtain resp where r: "fst (f (world_before rnd f bf w0 j)) = Inr resp" "status resp = 429"
    using limited [OF lt] by blast
  obtain w1 where fw: "f (world_before rnd f bf w0 j) = (Inr resp, w1)"
    using r(1) by (cases "f (world_before rnd f bf w0 j)") simp
  define d where "d = (if j = 0 then 1 else rnd (bf ^ j))"
  have pow: "float_pow rnd bf (int j) = Inr d"
    unfolding d_def using fits [OF lt] by (rule float_pow_value)
  have range: "[int j..mr] = int j # [int (Suc j)..mr]"
  proof -
    have "int j \<le> mr" using lt bound by simp
    then have "[int j..mr] = int j # [int j + 1..mr]" by (rule upto_rec1)
    moreover have "int j + 1 = int (Suc j)" by simp
    ultimately show ?thesis by (simp only:)
  qed
  have next_w: "world_before rnd f bf w0 (Suc j) = asyncio_sleep d w1"
    using fw pow by simp
  let ?t1 = "backed_off d (invoked (Inr resp) t)"
  have step: "retry_attempts rnd f mr bf [int j..mr] (world_before rnd f bf w0 j) t
      = retry_attempts rnd f mr bf [int (Suc j)..mr] (world_before rnd f bf w0 (Suc j)) ?t1"
    unfolding range next_w using fw r(2) lt bound pow by simp
  have rest: "retry_attempts rnd f mr bf [int (Suc j)..mr] (world_before rnd f bf w0 (Suc j)) ?t1 =
     retry_attempts rnd f mr bf [int k..mr] (world_before rnd f bf w0 k)
       \<lparr>attempts = attempts ?t1 @ map (\<lambda>i. fst (f (world_before rnd f bf w0 i))) [Suc j..<k],
        backoffs = backoffs ?t1 @ map (\<lambda>i. if i = 0 then 1 else rnd (bf ^ i)) [Suc j..<k]\<rparr>"
    using Suc.prems lt by (intro Suc.IH) auto
  have upt: "[j..<k] = j # [Suc j..<k]" using lt by (simp add: upt_conv_Cons)
  have trace: "\<lparr>attempts = attempts ?t1 @ map (\<lambda>i. fst (f (world_before rnd f bf w0 i))) [Suc j..<k],
        backoffs = backoffs ?t1 @ map (\<lambda>i. if i = 0 then 1 else rnd (bf ^ i)) [Suc j..<k]\<rparr>
     = \<lparr>attempts = attempts t @ map (\<lambda>i. fst (f (world_before rnd f bf w0 i))) [j..<k],
        backoffs = backoffs t @ map (\<lambda>i. if i = 0 then 1 else rnd (bf ^ i)) [j..<k]\<rparr>"
    unfolding upt using r(1) by (simp add: invoked_def backed_off_def d_def)
  show ?case unfolding step rest trace ..
qed

text \<open>The attempt that ends the loop: its response is returned.\<close>

lemma retry_last_attempt:
  assumes "f w = (Inr resp, w1)"
    and "status resp = 200 \<or> status resp \<noteq> 429 \<or> \<not> attempt < mr"
  shows "retry_attempts rnd f mr bf (attempt # rest) w t = (Inr (Some resp), w1, invoked (Inr resp) t)"
  using assms by auto

lemma run_to_attempt:
  assumes limited: "\<And>i. i < k \<Longrightarrow> \<exists>resp. fst (f (world_before rnd f bf w i)) = Inr resp \<and> status resp = 429"
    and fits: "\<And>i. i < k \<Longrightarrow> \<bar>bf ^ i\<bar> < DBL_OVERFLOW"
    and bound: "int k \<le> mr"
    and final: "fst (f (world_before rnd f bf w k)) = Inr resp"
    and stop: "status resp = 200 \<or> status resp \<noteq> 429 \<or> \<not> int k < mr"
  shows "handle_rate_limit_retry rnd f mr bf w =
           (Inr (Some resp), snd (f (world_before rnd f bf w k)),
            \<lparr>attempts = map (\<lambda>i. fst (f (world_before rnd f bf w i))) [0..<k + 1],
             backoffs = map (\<lambda>i. if i = 0 then 1 else rnd (bf ^ i)) [0..<k]\<rparr>)"
proof -
  have through: "retry_attempts rnd f mr bf [int 0..mr] (world_before rnd f bf w 0) no_trace =
     retry_attempts rnd f mr bf [int k..mr] (world_before rnd f bf w k)
       \<lparr>attempts = attempts no_trace @ map (\<lambda>i. fst (f (world_before rnd f bf w i))) [0..<k],
        backoffs = backoffs no_trace @ map (\<lambda>i. if i = 0 then 1 else rnd (bf ^ i)) [0..<k]\<rparr>"
    using limited fits bound by (intro retry_through_429 [where n = k]) auto
  obtain w1 where fw: "f (world_before rnd f bf w k) = (Inr resp, w1)"
    using final by (cases "f (world_before rnd f bf w k)") simp
  have range: "[int k..mr] = int k # [int k + 1..mr]" using bound by (rule upto_rec1)
  have last: "retry_attempts rnd f mr bf [int k..mr] (world_before rnd f bf w k) t
                = (Inr (Some resp), w1, invoked (Inr resp) t)" for t
    unfolding range using fw stop by (rule retry_last_attempt)
  show ?thesis
    unfolding handle_rate_limit_retry_def
    using through last fw final by (simp add: no_trace_def invoked_def)
qed

text \<open>
  Claim C3, as stated: with \<open>max_retries = 3\<close> and an operation that answers 429 on
  every invocation the executor never raises. It fails when a back-off duration is out
  of the range of the doubles. With the factor \<open>-(2.0 ** 700)\<close> the first sleep is 1
  second, the second has a negative duration and returns at once, and the third power,
  \<open>2 ^ 1400\<close>, raises \<open>OverflowError\<close>, which leaves the executor after three
  invocations.
\<close>

theorem always_429_overflow_counterexample:
  "fst (handle_rate_limit_retry exact busy 3 (- (2 ^ 700)) \<lparr>clock = 0, calls = 0\<rparr>) = Inl OverflowError
   \<and> calls (fst (snd (handle_rate_limit_retry exact busy 3 (- (2 ^ 700)) \<lparr>clock = 0, calls = 0\<rparr>))) = 3"
proof -
  have attempts: "[0..3::int] = [0, 1, 2, 3]" by (simp add: upto.simps)
  show ?thesis
    by (simp add: handle_rate_limit_retry_def attempts busy_def float_pow_def DBL_OVERFLOW_def
        exact_def asyncio_sleep_def no_trace_def invoked_def backed_off_def)
qed

text \<open>
  Claim C3, amended. With \<open>max_retries = r \<ge> 0\<close>, an operation that answers 429 on
  every invocation, and back-off durations \<open>backoff_factor ** i\<close>, \<open>i < r\<close>, within
  the range of the doubles, the executor does not raise: it returns the response of
  invocation number \<open>r + 1\<close> of the operation, which has status 429, in the world that
  invocation leaves, and it has invoked the operation exactly \<open>r + 1\<close> times, each
  time in the world left by the previous invocation and the sleep after it.
\<close>

theorem always_429_returns_final_429:
  assumes "0 \<le> r"
    and "\<forall>w. \<exists>resp. fst (request_func w) = Inr resp \<and> status resp = 429"
    and "\<forall>i < nat r. \<bar>backoff_factor ^ i\<bar> < DBL_OVERFLOW"
  shows "\<exists>resp t. fst (request_func (world_before rnd request_func backoff_factor w (nat r))) = Inr resp
           \<and> status resp = 429
           \<and> handle_rate_limit_retry rnd request_func r backoff_factor w
               = (Inr (Some resp),
                  snd (request_func (world_before rnd request_func backoff_factor w (nat r))), t)
           \<and> attempts t = map (\<lambda>i. fst (request_func (world_before rnd request_func backoff_factor w i)))
                              [0..<nat r + 1]
           \<and> length (attempts t) = nat r + 1"
proof -
  obtain resp where resp:
      "fst (request_func (world_before rnd request_func backoff_factor w (nat r))) = Inr resp"
      "status resp = 429"
    using assms(2) by blast
  have bound: "int (nat r) \<le> r" using assms(1) by simp
  have stop: "status resp = 200 \<or> status resp \<noteq> 429 \<or> \<not> int (nat r) < r"
    using assms(1) by simp
  have run: "handle_rate_limit_retry rnd request_func r backoff_factor w =
           (Inr (Some resp), snd (request_func (world_before rnd request_func backoff_factor w (nat r))),
            \<lparr>attempts = map (\<lambda>i. fst (request_func (world_before rnd request_func backoff_factor w i)))
                            [0..<nat r + 1],
             backoffs = map (\<lambda>i. if i = 0 then 1 else rnd (backoff_factor ^ i)) [0..<nat r]\<rparr>)"
    using assms(2,3) bound resp(1) stop by (intro run_to_attempt) auto
  show ?thesis
    using resp run by auto
qed

theorem always_429_returns_final_429_witness:
  "(0::int) \<le> 2
   \<and> (\<forall>w. \<exists>resp. fst (busy w) = Inr resp \<and> status resp = 429)
   \<and> \<bar>(2::real) ^ 0\<bar> < DBL_OVERFLOW \<and> \<bar>(2::real) ^ 1\<bar> < DBL_OVERFLOW
   \<and> (\<exists>resp t. handle_rate_limit_retry exact busy 2 2 \<lparr>clock = 0, calls = 0\<rparr>
                  = (Inr (Some resp), \<lparr>clock = 3, calls = 3\<rparr>, t)
           \<and> status resp = 429 \<and> length (attempts t) = 3)"
proof -
  have h1: "(0::int) \<le> 2" by simp
  have h2: "\<forall>w. \<exists>resp. fst (busy w) = Inr resp \<and> status resp = 429" by (simp add: busy_def)
  have h3a: "\<bar>(2::real) ^ 0\<bar> < DBL_OVERFLOW" by (simp add: DBL_OVERFLOW_def)
  have h3b: "\<bar>(2::real) ^ 1\<bar> < DBL_OVERFLOW" by (simp add: DBL_OVERFLOW_def)
  have h3: "\<forall>i < nat 2. \<bar>(2::real) ^ i\<bar> < DBL_OVERFLOW"
  proof (intro allI impI)
    fix i :: nat assume "i < nat 2"
    then have "i = 0 \<or> i = 1" by auto
    then show "\<bar>(2::real) ^ i\<bar> < DBL_OVERFLOW" using h3a h3b by auto
  qed
  have two: "nat 2 = Suc (Suc 0)" by simp
  have final: "snd (busy (world_before exact busy 2 \<lparr>clock = 0, calls = 0\<rparr> (nat 2)))
                 = \<lparr>clock = 3, calls = 3\<rparr>"
    unfolding two
    by (simp add: busy_def float_pow_def DBL_OVERFLOW_def exact_def asyncio_sleep_def)
  from always_429_returns_final_429 [OF h1 h2 h3, of exact "\<lparr>clock = 0, calls = 0\<rparr>"]
  obtain resp t where run:
      "status resp = 429"
      "handle_rate_limit_retry exact busy 2 2 \<lparr>clock = 0, calls = 0\<rparr>
         = (Inr (Some resp), snd (busy (world_before exact busy 2 \<lparr>clock = 0, calls = 0\<rparr> (nat 2))), t)"
      "length (attempts t) = nat 2 + 1"
    by blast
  have "length (attempts t) = 3" using run(3) by simp
  then show ?thesis using h1 h2 h3a h3b run(1,2) unfolding final by blast
qed

text \<open>
  Claim C4, as stated, for \<open>k = 3 = max_retries\<close>: the 200 response of the fourth
  invocation is returned. With the factor \<open>-(2.0 ** 700)\<close> the third back-off duration
  is out of range and \<open>OverflowError\<close> leaves the executor after three invocations.
\<close>

theorem retry_429_then_200_overflow_counterexample:
  "fst (handle_rate_limit_retry exact (thaws 3) 3 (- (2 ^ 700)) \<lparr>clock = 0, calls = 0\<rparr>) = Inl OverflowError
   \<and> calls (fst (snd (handle_rate_limit_retry exact (thaws 3) 3 (- (2 ^ 700)) \<lparr>clock = 0, calls = 0\<rparr>))) = 3"
proof -
  have attempts: "[0..3::int] = [0, 1, 2, 3]" by (simp add: upto.simps)
  show ?thesis
    by (simp add: handle_rate_limit_retry_def attempts thaws_def float_pow_def DBL_OVERFLOW_def
        exact_def asyncio_sleep_def no_trace_def invoked_def backed_off_def)
qed

text \<open>
  Claim C4, amended. When the operation answers 429 on its first \<open>k\<close> invocations and
  200 on invocation \<open>k + 1\<close>, \<open>max_retries \<ge> k\<close>, and the back-off durations
  \<open>backoff_factor ** i\<close>, \<open>i < k\<close>, are within the range of the doubles, the executor
  returns that 200 response after exactly \<open>k + 1\<close> invocations, in the world the last
  one leaves. It has called \<open>asyncio.sleep\<close> \<open>k\<close> times, with the values of
  \<open>backoff_factor ** i\<close>, \<open>i = 0, \<dots>, k - 1\<close>, in this order: 1 second first, whatever
  the factor, then the powers of the factor rounded to doubles. Their sum is the time
  slept when none of them is negative; a sleep of negative duration returns at once.
\<close>

theorem retry_429_then_200:
  assumes "int k \<le> max_retries"
    and "\<forall>i<k. \<exists>resp. fst (request_func (world_before rnd request_func backoff_factor w i)) = Inr resp
                     \<and> status resp = 429"
    and "fst (request_func (world_before rnd request_func backoff_factor w k)) = Inr r200"
    and "status r200 = 200"
    and "\<forall>i<k. \<bar>backoff_factor ^ i\<bar> < DBL_OVERFLOW"
  shows "\<exists>t. handle_rate_limit_retry rnd request_func max_retries backoff_factor w
               = (Inr (Some r200), snd (request_func (world_before rnd request_func backoff_factor w k)), t)
           \<and> attempts t = map (\<lambda>i. fst (request_func (world_before rnd request_func backoff_factor w i)))
                              [0..<k + 1]
           \<and> length (attempts t) = k + 1
           \<and> last (attempts t) = Inr r200
           \<and> map Inr (backoffs t) = map (\<lambda>i. float_pow rnd backoff_factor (int i)) [0..<k]
           \<and> sum_list (backoffs t) = (\<Sum>i<k. if i = 0 then 1 else rnd (backoff_factor ^ i))
           \<and> ((\<forall>d \<in> set (backoffs t). 0 \<le> d) \<longrightarrow>
                sum_list (map (max 0) (backoffs t))
                  = (\<Sum>i<k. if i = 0 then 1 else rnd (backoff_factor ^ i)))
           \<and> (0 < k \<longrightarrow> hd (backoffs t) = 1)"
proof -
  define t where "t =
    \<lparr>attempts = map (\<lambda>i. fst (request_func (world_before rnd request_func backoff_factor w i))) [0..<k + 1],
     backoffs = map (\<lambda>i. if i = 0 then 1 else rnd (backoff_factor ^ i)) [0..<k]\<rparr>"
  have stop: "status r200 = 200 \<or> status r200 \<noteq> 429 \<or> \<not> int k < max_retries"
    using assms(4) by simp
  have run: "handle_rate_limit_retry rnd request_func max_retries backoff_factor w
               = (Inr (Some r200), snd (request_func (world_before rnd request_func backoff_factor w k)), t)"
    unfolding t_def using assms(2,5,1,3) stop by (intro run_to_attempt) auto
  have att: "attempts t = map (\<lambda>i. fst (request_func (world_before rnd request_func backoff_factor w i)))
                              [0..<k + 1]"
    by (simp add: t_def)
  have len: "length (attempts t) = k + 1" unfolding att by simp
  have lst: "last (attempts t) = Inr r200" unfolding att using assms(3) by simp
  have pows: "map Inr (backoffs t) = map (\<lambda>i. float_pow rnd backoff_factor (int i)) [0..<k]"
    using assms(5) by (simp add: t_def float_pow_value)
  have total: "sum_list (backoffs t) = (\<Sum>i<k. if i = 0 then 1 else rnd (backoff_factor ^ i))"
    by (simp add: t_def interv_sum_list_conv_sum_set_nat atLeast0LessThan)
  have slept: "(\<forall>d \<in> set (backoffs t). 0 \<le> d) \<longrightarrow>
                sum_list (map (max 0) (backoffs t))
                  = (\<Sum>i<k. if i = 0 then 1 else rnd (backoff_factor ^ i))"
  proof
    assume "\<forall>d \<in> set (backoffs t). 0 \<le> d"
    then have "map (max 0) (backoffs t) = backoffs t" by (intro map_idI) (simp add: max_def)
    then show "sum_list (map (max 0) (backoffs t))
                 = (\<Sum>i<k. if i = 0 then 1 else rnd (backoff_factor ^ i))"
      using total by simp
  qed
  have first: "0 < k \<longrightarrow> hd (backoffs t) = 1"
  proof
    assume "0 < k"
    then have "[0..<k] = 0 # [Suc 0..<k]" by (simp add: upt_conv_Cons)
    then show "hd (backoffs t) = 1" by (simp add: t_def)
  qed
  show ?thesis using run att len lst pows total slept first by blast
qed

theorem retry_429_then_200_witness:
  "int 2 \<le> 3
   \<and> (\<exists>resp. fst (thaws 2 (world_before exact (thaws 2) 2 \<lparr>clock = 0, calls = 0\<rparr> 0)) = Inr resp
             \<and> status resp = 429)
   \<and> (\<exists>resp. fst (thaws 2 (world_before exact (thaws 2) 2 \<lparr>clock = 0, calls = 0\<rparr> 1)) = Inr resp
             \<and> status resp = 429)
   \<and> fst (thaws 2 (world_before exact (thaws 2) 2 \<lparr>clock = 0, calls = 0\<rparr> 2))
       = Inr \<lparr>status = 200, json_body = Inr JNull\<rparr>
   \<and> \<bar>(2::real) ^ 0\<bar> < DBL_OVERFLOW \<and> \<bar>(2::real) ^ 1\<bar> < DBL_OVERFLOW
   \<and> (\<exists>t. handle_rate_limit_retry exact (thaws 2) 3 2 \<lparr>clock = 0, calls = 0\<rparr>
              = (Inr (Some \<lparr>status = 200, json_body = Inr JNull\<rparr>), \<lparr>clock = 3, calls = 3\<rparr>, t)
           \<and> length (attempts t) = 3
           \<and> last (attempts t) = Inr \<lparr>status = 200, json_body = Inr JNull\<rparr>
           \<and> backoffs t = [1, 2]
           \<and> sum_list (backoffs t) = 3
           \<and> sum_list (map (max 0) (backoffs t)) = 3
           \<and> hd (backoffs t) = 1)"
proof -
  let ?w = "\<lparr>clock = 0, calls = 0\<rparr> :: counted"
  let ?ok = "\<lparr>status = 200, json_body = Inr JNull\<rparr>"
  have w0: "world_before exact (thaws 2) 2 ?w 0 = ?w" by simp
  have w1: "world_before exact (thaws 2) 2 ?w 1 = \<lparr>clock = 1, calls = 1\<rparr>"
    by (simp add: thaws_def float_pow_def asyncio_sleep_def)
  have w2: "world_before exact (thaws 2) 2 ?w 2 = \<lparr>clock = 3, calls = 2\<rparr>"
    by (simp add: numeral_2_eq_2 thaws_def float_pow_def DBL_OVERFLOW_def exact_def asyncio_sleep_def)
  have h1: "int 2 \<le> 3" by simp
  have h2a: "\<exists>resp. fst (thaws 2 (world_before exact (thaws 2) 2 ?w 0)) = Inr resp \<and> status resp = 429"
    unfolding w0 by (simp add: thaws_def)
  have h2b: "\<exists>resp. fst (thaws 2 (world_before exact (thaws 2) 2 ?w 1)) = Inr resp \<and> status resp = 429"
    unfolding w1 by (simp add: thaws_def)
  have h2: "\<forall>i<2. \<exists>resp. fst (thaws 2 (world_before exact (thaws 2) 2 ?w i)) = Inr resp \<and> status resp = 429"
  proof (intro allI impI)
    fix i :: nat assume "i < 2"
    then have "i = 0 \<or> i = 1" by auto
    then show "\<exists>resp. fst (thaws 2 (world_before exact (thaws 2) 2 ?w i)) = Inr resp \<and> status resp = 429"
      using h2a h2b by auto
  qed
  have h3: "fst (thaws 2 (world_before exact (thaws 2) 2 ?w 2)) = Inr ?ok"
    unfolding w2 by (simp add: thaws_def)
  have h4: "status ?ok = 200" by simp
  have h5a: "\<bar>(2::real) ^ 0\<bar> < DBL_OVERFLOW" by (simp add: DBL_OVERFLOW_def)
  have h5b: "\<bar>(2::real) ^ 1\<bar> < DBL_OVERFLOW" by (simp add: DBL_OVERFLOW_def)
  have h5: "\<forall>i<2. \<bar>(2::real) ^ i\<bar> < DBL_OVERFLOW"
  proof (intro allI impI)
    fix i :: nat assume "i < 2"
    then have "i = 0 \<or> i = 1" by auto
    then show "\<bar>(2::real) ^ i\<bar> < DBL_OVERFLOW" using h5a h5b by auto
  qed
  have final: "snd (thaws 2 (world_before exact (thaws 2) 2 ?w 2)) = \<lparr>clock = 3, calls = 3\<rparr>"
    unfolding w2 by (simp add: thaws_def)
  from retry_429_then_200 [OF h1 h2 h3 h4 h5]
  obtain t where run:
      "handle_rate_limit_retry exact (thaws 2) 3 2 ?w
         = (Inr (Some ?ok), snd (thaws 2 (world_before exact (thaws 2) 2 ?w 2)), t)"
      "length (attempts t) = 2 + 1" "last (attempts t) = Inr ?ok"
      "map Inr (backoffs t) = map (\<lambda>i. float_pow exact 2 (int i)) [0..<2]"
    by blast
  have two: "[0..<2] = [0, Suc 0]" by (simp add: upt_conv_Cons)
  have "map Inr (backoffs t) = [Inr 1, Inr 2 :: exn + real]"
    unfolding run(4) two by (simp add: float_pow_def DBL_OVERFLOW_def exact_def)
  then have b: "backoffs t = [1, 2]" by (auto simp: map_eq_Cons_conv)
  have l: "length (attempts t) = 3" using run(2) by simp
  show ?thesis
    using h1 h2a h2b h3 h5a h5b run(1,3) b l unfolding final by auto
qed

section \<open>Properties of the rate limiter\<close>

text \<open>
  Claim C5, as stated, for the first call: a fresh limiter never suspends on its first
  \<open>wait()\<close>. It fails for a delay larger than the clock reading: with a delay of
  \<open>2 * 10^9\<close> seconds and the clock at \<open>1762000000\<close> (seconds since the epoch, November
  2025) the first call sleeps.
\<close>

theorem fresh_limiter_first_wait_counterexample:
  "fst (wait exact (RateLimiter_init 2000000000) \<lparr>clock = 1762000000\<rparr>) = Some 238000000"
  by (simp add: wait_def float_sub_def exact_def RateLimiter_init_def asyncio_sleep_def)

text \<open>
  Claim C5, amended. Let one \<open>wait()\<close> return in world \<open>w1'\<close> and the next \<open>wait()\<close> on
  the same limiter start in any world \<open>w2\<close>. The second call returns no earlier than
  \<open>delay\<close> seconds after the first returned, less the rounding errors of the two float
  subtractions it performs; where both are exact it returns no earlier than \<open>delay\<close>
  seconds after the first. When the elapsed time it computes is less than \<open>delay\<close> it
  suspends for the remaining time it computes, and otherwise it does not suspend. The
  first call on a fresh limiter does not suspend provided the delay does not exceed
  the clock reading at that call.
\<close>

theorem consecutive_waits_spaced:
  assumes "wait rnd self w1 = (s1, self1, w1')"
    and "wait rnd self1 w2 = (s2, self2, w2')"
  shows "delay self1 = delay self
       \<and> clock w1' + delay self
           - \<bar>float_sub rnd (clock w2) (clock w1') - (clock w2 - clock w1')\<bar>
           - \<bar>float_sub rnd (delay self) (float_sub rnd (clock w2) (clock w1'))
                - (delay self - float_sub rnd (clock w2) (clock w1'))\<bar>
         \<le> clock w2'
       \<and> (float_sub rnd (clock w2) (clock w1') = clock w2 - clock w1'
          \<and> float_sub rnd (delay self) (clock w2 - clock w1') = delay self - (clock w2 - clock w1')
          \<longrightarrow> clock w1' + delay self \<le> clock w2')
       \<and> (float_sub rnd (clock w2) (clock w1') < delay self \<longrightarrow>
            s2 = Some (float_sub rnd (delay self) (float_sub rnd (clock w2) (clock w1'))))
       \<and> (delay self \<le> float_sub rnd (clock w2) (clock w1') \<longrightarrow> s2 = None \<and> clock w2' = clock w2)
       \<and> (self = RateLimiter_init d \<and> float_sub rnd (clock w1) 0 = clock w1 \<and> d \<le> clock w1 \<longrightarrow>
            s1 = None \<and> clock w1' = clock w1)"
proof -
  define elapsed where "elapsed = float_sub rnd (clock w2) (clock w1')"
  define remaining where "remaining = float_sub rnd (delay self) elapsed"
  define e1 where "e1 = elapsed - (clock w2 - clock w1')"
  define e2 where "e2 = remaining - (delay self - elapsed)"
  have first: "delay self1 = delay self \<and> last_request_time self1 = clock w1'"
    using assms(1) by (auto simp: wait_def Let_def asyncio_sleep_def split: if_splits)
  have fresh: "self = RateLimiter_init d \<and> float_sub rnd (clock w1) 0 = clock w1 \<and> d \<le> clock w1 \<longrightarrow>
                 s1 = None \<and> clock w1' = clock w1"
    using assms(1) by (auto simp: wait_def Let_def RateLimiter_init_def split: if_splits)
  have second: "(elapsed < delay self \<longrightarrow> s2 = Some remaining \<and> clock w2' = clock w2 + max 0 remaining)
              \<and> (delay self \<le> elapsed \<longrightarrow> s2 = None \<and> clock w2' = clock w2)"
    using assms(2) first
    by (auto simp: wait_def Let_def asyncio_sleep_def elapsed_def remaining_def split: if_splits)
  have spaced: "clock w1' + delay self - \<bar>e1\<bar> - \<bar>e2\<bar> \<le> clock w2'"
  proof (cases "elapsed < delay self")
    case True
    then have "clock w2' = clock w2 + max 0 remaining" using second by simp
    then have "clock w2 + remaining \<le> clock w2'" by simp
    moreover have "clock w2 + remaining = clock w1' + delay self - e1 + e2"
      by (simp add: e1_def e2_def)
    ultimately show ?thesis by linarith
  next
    case False
    then have "clock w2' = clock w2" using second by simp
    moreover have "clock w1' + delay self - e1 \<le> clock w2" using False by (simp add: e1_def)
    ultimately show ?thesis by linarith
  qed
  have exact_case: "elapsed = clock w2 - clock w1'
          \<and> float_sub rnd (delay self) (clock w2 - clock w1') = delay self - (clock w2 - clock w1')
          \<longrightarrow> clock w1' + delay self \<le> clock w2'"
  proof
    assume a: "elapsed = clock w2 - clock w1'
          \<and> float_sub rnd (delay self) (clock w2 - clock w1') = delay self - (clock w2 - clock w1')"
    then have "e1 = 0" by (simp add: e1_def)
    moreover have "e2 = 0" using a by (simp add: e2_def remaining_def)
    ultimately show "clock w1' + delay self \<le> clock w2'" using spaced by simp
  qed
  show ?thesis
    using first fresh second spaced exact_case
    unfolding e1_def e2_def remaining_def elapsed_def by simp
qed

theorem consecutive_waits_spaced_witness:
  "wait exact (RateLimiter_init 1) \<lparr>clock = 100\<rparr>
     = (None, \<lparr>delay = 1, last_request_time = 100\<rparr>, \<lparr>clock = 100\<rparr>)
   \<and> wait exact \<lparr>delay = 1, last_request_time = 100\<rparr> \<lparr>clock = 100.5\<rparr>
     = (Some 0.5, \<lparr>delay = 1, last_request_time = 101\<rparr>, \<lparr>clock = 101\<rparr>)
   \<and> wait exact \<lparr>delay = 1, last_request_time = 101\<rparr> \<lparr>clock = 105\<rparr>
     = (None, \<lparr>delay = 1, last_request_time = 105\<rparr>, \<lparr>clock = 105\<rparr>)
   \<and> float_sub exact 100.5 100 = 100.5 - 100
   \<and> float_sub exact 1 (100.5 - 100) = 1 - (100.5 - 100)
   \<and> float_sub exact 100.5 100 < 1
   \<and> 1 \<le> float_sub exact 105 101
   \<and> float_sub exact 100 0 = 100
   \<and> clock \<lparr>clock = 100\<rparr> + delay (RateLimiter_init 1) \<le> clock \<lparr>clock = 101\<rparr>
   \<and> clock \<lparr>clock = 101\<rparr> + delay \<lparr>delay = 1, last_request_time = 100\<rparr> \<le> clock \<lparr>clock = 105\<rparr>
   \<and> RateLimiter_init 1 = RateLimiter_init 1 \<and> (1::real) \<le> clock \<lparr>clock = 100\<rparr>"
proof -
  have h1: "wait exact (RateLimiter_init 1) \<lparr>clock = 100\<rparr>
     = (None, \<lparr>delay = 1, last_request_time = 100\<rparr>, \<lparr>clock = 100\<rparr>)"
    by (simp add: wait_def float_sub_def exact_def RateLimiter_init_def)
  have h2: "wait exact \<lparr>delay = 1, last_request_time = 100\<rparr> \<lparr>clock = 100.5\<rparr>
     = (Some 0.5, \<lparr>delay = 1, last_request_time = 101\<rparr>, \<lparr>clock = 101\<rparr>)"
    by (simp add: wait_def float_sub_def exact_def asyncio_sleep_def)
  have h3: "wait exact \<lparr>delay = 1, last_request_time = 101\<rparr> \<lparr>clock = 105\<rparr>
     = (None, \<lparr>delay = 1, last_request_time = 105\<rparr>, \<lparr>clock = 105\<rparr>)"
    by (simp add: wait_def float_sub_def exact_def)
  have subs: "float_sub exact 100.5 100 = 100.5 - 100"
      "float_sub exact 1 (100.5 - 100) = 1 - (100.5 - 100)"
      "float_sub exact 100.5 100 < 1" "1 \<le> float_sub exact 105 101"
      "float_sub exact 100 0 = 100"
    by (simp_all add: float_sub_def exact_def)
  show ?thesis
    using h1 h2 h3 subs consecutive_waits_spaced [OF h1 h2, of 1] consecutive_waits_spaced [OF h2 h3, of 1]
    by (simp add: RateLimiter_init_def)
qed

section \<open>Properties of the canonical records\<close>

lemma author_convert_keys:
  "fst ` set (author_convert items acc) = fst ` set acc \<union> rename author_field_mapping ` fst ` set items"
  unfolding author_convert_def
  by (induction items arbitrary: acc) (auto simp: AList.dom_update split: prod.splits)

lemma paper_convert_filter:
  "paper_convert items acc =
   paper_convert [(key, value) \<leftarrow> items. rename paper_field_mapping key \<in> set paper_valid_fields] acc"
  unfolding paper_convert_def
  by (induction items arbitrary: acc) (auto simp: Let_def)

text \<open>
  What the conversion loop leaves under a field name: the value of the last item whose
  renamed key is that field, when the field is one of the model's.
\<close>

lemma paper_convert_lookup:
  "map_of (paper_convert items acc) =
   map_of acc ++ map_of (rev [(rename paper_field_mapping key, value).
                               (key, value) \<leftarrow> items, rename paper_field_mapping key \<in> set paper_valid_fields])"
proof (induction items arbitrary: acc)
  case Nil
  show ?case by (simp add: paper_convert_def)
next
  case (Cons item items)
  obtain key "value" where item: "item = (key, value)" by (cases item)
  let ?nk = "rename paper_field_mapping key"
  show ?case
  proof (cases "?nk \<in> set paper_valid_fields")
    case True
    have step: "paper_convert (item # items) acc = paper_convert items (AList.update ?nk value acc)"
      using True item by (simp add: paper_convert_def)
    have "map_of (AList.update ?nk value acc) = map_of acc ++ map_of [(?nk, value)]"
      by (simp add: AList.update_conv')
    then show ?thesis
      unfolding step Cons.IH using True item by (simp add: map_add_assoc)
  next
    case False
    have step: "paper_convert (item # items) acc = paper_convert items acc"
      using False item by (simp add: paper_convert_def)
    show ?thesis unfolding step Cons.IH using False item by simp
  qed
qed

lemma paper_convert_present:
  "map_of (paper_convert items []) f \<noteq> None \<longleftrightarrow>
   f \<in> set paper_valid_fields \<and> f \<in> rename paper_field_mapping ` fst ` set items"
proof -
  have "map_of (paper_convert items []) f \<noteq> None \<longleftrightarrow>
        f \<in> fst ` set (rev [(rename paper_field_mapping key, value).
                               (key, value) \<leftarrow> items, rename paper_field_mapping key \<in> set paper_valid_fields])"
    unfolding paper_convert_lookup by (simp add: map_of_eq_None_iff del: set_rev set_concat)
  also have "\<dots> \<longleftrightarrow> f \<in> set paper_valid_fields \<and> f \<in> rename paper_field_mapping ` fst ` set items"
    by (force simp: image_iff)
  finally show ?thesis .
qed

lemma paper_convert_keys_valid:
  "fst ` set (paper_convert items []) \<subseteq> set paper_valid_fields"
proof
  fix f assume "f \<in> fst ` set (paper_convert items [])"
  then have "map_of (paper_convert items []) f \<noteq> None"
    using map_of_eq_None_iff [of "paper_convert items []" f] by blast
  then show "f \<in> set paper_valid_fields"
    using paper_convert_present [of items f] by blast
qed

lemma paper_convert_value:
  assumes "distinct (map (rename paper_field_mapping \<circ> fst) items)"
    and "(key, v) \<in> set items"
    and "rename paper_field_mapping key \<in> set paper_valid_fields"
  shows "map_of (paper_convert items []) (rename paper_field_mapping key) = Some v"
proof -
  let ?kept = "[(rename paper_field_mapping key, value).
                 (key, value) \<leftarrow> items, rename paper_field_mapping key \<in> set paper_valid_fields]"
  have kept: "?kept = filter (\<lambda>(f, v). f \<in> set paper_valid_fields)
                        (map (\<lambda>(key, value). (rename paper_field_mapping key, value)) items)"
    by (induction items) auto
  have "map fst (map (\<lambda>(key, value). (rename paper_field_mapping key, value)) items)
        = map (rename paper_field_mapping \<circ> fst) items"
    by (induction items) auto
  then have "distinct (map fst (map (\<lambda>(key, value). (rename paper_field_mapping key, value)) items))"
    using assms(1) by (simp only:)
  then have "distinct (map fst ?kept)"
    unfolding kept by (rule distinct_map_filter)
  then have d: "distinct (map fst (rev ?kept))" by (simp add: rev_map [symmetric])
  have "(rename paper_field_mapping key, v) \<in> set (rev ?kept)"
    using assms(2,3) by force
  then have "map_of (rev ?kept) (rename paper_field_mapping key) = Some v"
    using d by (rule map_of_is_SomeI [rotated])
  then show ?thesis unfolding paper_convert_lookup by simp
qed

lemma paper_fill_defaults_Cons:
  "paper_fill_defaults ((key, d) # defaults) converted =
   paper_fill_defaults defaults
     (if map_of converted key = None then AList.update key d converted else converted)"
  by (simp add: paper_fill_defaults_def)

lemma paper_fill_defaults_lookup:
  "map_of (paper_fill_defaults defaults converted) f =
   (case map_of converted f of Some v \<Rightarrow> Some v | None \<Rightarrow> map_of defaults f)"
proof (induction defaults arbitrary: converted)
  case Nil
  show ?case by (simp add: paper_fill_defaults_def split: option.splits)
next
  case (Cons item defaults)
  obtain key d where item: "item = (key, d)" by (cases item)
  show ?case
  proof (cases "map_of converted key = None")
    case True
    then show ?thesis
      unfolding item paper_fill_defaults_Cons Cons.IH
      by (auto simp: AList.update_conv' split: option.splits)
  next
    case False
    then show ?thesis
      unfolding item paper_fill_defaults_Cons Cons.IH
      by (auto split: option.splits)
  qed
qed

lemma paper_fill_defaults_keys:
  "fst ` set (paper_fill_defaults defaults converted) \<subseteq> fst ` set converted \<union> fst ` set defaults"
proof (induction defaults arbitrary: converted)
  case Nil
  show ?case by (simp add: paper_fill_defaults_def)
next
  case (Cons item defaults)
  obtain key d where item: "item = (key, d)" by (cases item)
  define c where "c = (if map_of converted key = None then AList.update key d converted else converted)"
  have step: "paper_fill_defaults (item # defaults) converted = paper_fill_defaults defaults c"
    unfolding item c_def by (rule paper_fill_defaults_Cons)
  have "fst ` set c \<subseteq> insert key (fst ` set converted)"
  proof (cases "map_of converted key = None")
    case True
    then have "c = AList.update key d converted" unfolding c_def by (rule if_P)
    then show ?thesis by (simp add: AList.dom_update)
  next
    case False
    then have "c = converted" unfolding c_def by (rule if_not_P)
    then show ?thesis by (simp add: subset_insertI)
  qed
  then have "fst ` set c \<union> fst ` set defaults
               \<subseteq> insert key (fst ` set converted) \<union> fst ` set defaults"
    by (rule Un_mono) (rule order_refl)
  moreover have "fst ` set (paper_fill_defaults defaults c) \<subseteq> fst ` set c \<union> fst ` set defaults"
    by (rule Cons.IH)
  ultimately have "fst ` set (paper_fill_defaults defaults c)
               \<subseteq> insert key (fst ` set converted) \<union> fst ` set defaults"
    by (rule order_trans [rotated])
  moreover have "insert key (fst ` set converted) \<union> fst ` set defaults
               = fst ` set converted \<union> fst ` set (item # defaults)"
    unfolding item by simp
  ultimately show ?case
    unfolding step by (simp only:)
qed
lemma paper_init_ok:
  assumes "fst ` set kwargs \<subseteq> set paper_valid_fields"
    and "\<And>k. k \<in> set paper_required \<Longrightarrow> map_of kwargs k \<noteq> None"
  shows "SemanticScholarPaper_init kwargs = Inr (paper_bind kwargs)"
proof -
  have "\<not> (\<exists>k \<in> set (map fst kwargs). k \<notin> set paper_valid_fields)"
    using assms(1) by auto
  moreover have "\<not> (\<exists>k \<in> set paper_required. map_of kwargs k = None)"
    using assms(2) by blast
  ultimately show ?thesis
    unfolding SemanticScholarPaper_init_def by (simp only: if_False)
qed

lemma paper_defaults_valid: "fst ` set paper_defaults \<subseteq> set paper_valid_fields"
  by (simp add: paper_defaults_def paper_valid_fields_def paper_required_def paper_optional_def)

lemma paper_required_valid: "set paper_required \<subseteq> set paper_valid_fields"
  by (simp add: paper_valid_fields_def)

text \<open>
  The normaliser succeeds as soon as the payload carries, under either name, every
  parameter that has neither a dataclass default nor an entry in \<open>defaults\<close>.
\<close>

lemma paper_from_dict_ok:
  assumes "\<And>f. f \<in> set paper_required \<Longrightarrow> map_of paper_defaults f = None \<Longrightarrow>
             f \<in> rename paper_field_mapping ` fst ` set items"
  shows "SemanticScholarPaper_from_dict (JObj items) =
         Inr (paper_bind (paper_fill_defaults paper_defaults (paper_convert items [])))"
proof -
  let ?c = "paper_convert items []"
  let ?kw = "paper_fill_defaults paper_defaults ?c"
  have "fst ` set ?kw \<subseteq> fst ` set ?c \<union> fst ` set paper_defaults"
    by (rule paper_fill_defaults_keys)
  also have "\<dots> \<subseteq> set paper_valid_fields"
    using paper_convert_keys_valid [of items] paper_defaults_valid by (rule Un_least)
  finally have keys: "fst ` set ?kw \<subseteq> set paper_valid_fields" .
  have present: "map_of ?kw k \<noteq> None" if k: "k \<in> set paper_required" for k
  proof (cases "map_of paper_defaults k")
    case None
    then have "k \<in> rename paper_field_mapping ` fst ` set items" using assms k by blast
    moreover have "k \<in> set paper_valid_fields" using k paper_required_valid by blast
    ultimately have "map_of ?c k \<noteq> None"
      using paper_convert_present [of items k] by blast
    then show ?thesis by (auto simp: paper_fill_defaults_lookup)
  next
    case (Some d)
    then show ?thesis by (simp add: paper_fill_defaults_lookup split: option.splits)
  qed
  have "SemanticScholarPaper_init ?kw = Inr (paper_bind ?kw)"
    using keys present by (rule paper_init_ok)
  then show ?thesis by (simp add: SemanticScholarPaper_from_dict_def)
qed

text \<open>What a field holds when no key of the payload names it.\<close>

lemma kwarg_absent:
  assumes "f \<notin> rename paper_field_mapping ` fst ` set items"
  shows "kwarg (paper_fill_defaults paper_defaults (paper_convert items [])) f JNull =
         (case map_of paper_defaults f of Some d \<Rightarrow> d | None \<Rightarrow> JNull)"
proof -
  have "map_of (paper_convert items []) f = None"
    using assms paper_convert_present [of items f] by blast
  then show ?thesis by (simp add: kwarg_def paper_fill_defaults_lookup)
qed

text \<open>What a field holds when exactly one key of the payload names it.\<close>

lemma kwarg_present:
  assumes "distinct (map (rename paper_field_mapping \<circ> fst) items)"
    and "(key, v) \<in> set items"
    and "rename paper_field_mapping key \<in> set paper_valid_fields"
  shows "kwarg (paper_fill_defaults paper_defaults (paper_convert items []))
           (rename paper_field_mapping key) JNull = v"
proof -
  have "map_of (paper_convert items []) (rename paper_field_mapping key) = Some v"
    using assms by (rule paper_convert_value)
  then show ?thesis by (simp add: kwarg_def paper_fill_defaults_lookup)
qed

text \<open>
  Claim C2, as stated: every payload is normalised. It fails for a payload without an
  identifier.
\<close>

theorem paper_from_dict_total_counterexample:
  "SemanticScholarPaper_from_dict (JObj [(''title'', JStr ''T'')]) = Inl TypeError"
  by (simp add: SemanticScholarPaper_from_dict_def paper_convert_def paper_fill_defaults_def
      paper_defaults_def paper_field_mapping_def rename_def paper_valid_fields_def
      paper_required_def paper_optional_def SemanticScholarPaper_init_def)

text \<open>
  Claim C2, amended. When the payload carries, under its API name or its canonical
  name, each of the ten parameters without any default (\<open>paper_id\<close>, \<open>title\<close>,
  \<open>abstract\<close>, \<open>year\<close>, \<open>venue\<close>, \<open>url\<close>, \<open>external_ids\<close>, \<open>publication_types\<close>,
  \<open>publication_date\<close>, \<open>journal\<close>), normalisation succeeds and every other field that
  no key of the payload names holds its default: the three counts 0, \<open>authors\<close> the
  empty list, and \<open>arxiv_id\<close>, \<open>doi\<close>, \<open>corpus_id\<close>, \<open>citations\<close>, \<open>references\<close>,
  \<open>embedding\<close>, \<open>tldr\<close> null.
\<close>

theorem paper_from_dict_defaults:
  assumes "\<forall>f \<in> set paper_required. map_of paper_defaults f = None \<longrightarrow>
             f \<in> rename paper_field_mapping ` fst ` set items"
  shows "\<exists>p. SemanticScholarPaper_from_dict (JObj items) = Inr p
     \<and> (''citation_count'' \<notin> rename paper_field_mapping ` fst ` set items \<longrightarrow> citation_count p = JInt 0)
     \<and> (''reference_count'' \<notin> rename paper_field_mapping ` fst ` set items \<longrightarrow> reference_count p = JInt 0)
     \<and> (''influential_citation_count'' \<notin> rename paper_field_mapping ` fst ` set items \<longrightarrow>
          influential_citation_count p = JInt 0)
     \<and> (''authors'' \<notin> rename paper_field_mapping ` fst ` set items \<longrightarrow> authors p = JList [])
     \<and> (''arxiv_id'' \<notin> rename paper_field_mapping ` fst ` set items \<longrightarrow> arxiv_id p = JNull)
     \<and> (''doi'' \<notin> rename paper_field_mapping ` fst ` set items \<longrightarrow> doi p = JNull)
     \<and> (''corpus_id'' \<notin> rename paper_field_mapping ` fst ` set items \<longrightarrow> corpus_id p = JNull)
     \<and> (''citations'' \<notin> rename paper_field_mapping ` fst ` set items \<longrightarrow> citations p = JNull)
     \<and> (''references'' \<notin> rename paper_field_mapping ` fst ` set items \<longrightarrow> references p = JNull)
     \<and> (''embedding'' \<notin> rename paper_field_mapping ` fst ` set items \<longrightarrow> embedding p = JNull)
     \<and> (''tldr'' \<notin> rename paper_field_mapping ` fst ` set items \<longrightarrow> tldr p = JNull)"
proof -
  let ?kw = "paper_fill_defaults paper_defaults (paper_convert items [])"
  have ok: "SemanticScholarPaper_from_dict (JObj items) = Inr (paper_bind ?kw)"
    using assms by (intro paper_from_dict_ok) blast
  have absent: "kwarg ?kw f JNull = (case map_of paper_defaults f of Some d \<Rightarrow> d | None \<Rightarrow> JNull)"
    if "f \<notin> rename paper_field_mapping ` fst ` set items" for f
    using that by (rule kwarg_absent)
  have d1: "''citation_count'' \<notin> rename paper_field_mapping ` fst ` set items \<longrightarrow>
            citation_count (paper_bind ?kw) = JInt 0"
    using absent [of "''citation_count''"] by (simp add: paper_bind_def paper_defaults_def)
  have d2: "''reference_count'' \<notin> rename paper_field_mapping ` fst ` set items \<longrightarrow>
            reference_count (paper_bind ?kw) = JInt 0"
    using absent [of "''reference_count''"] by (simp add: paper_bind_def paper_defaults_def)
  have d3: "''influential_citation_count'' \<notin> rename paper_field_mapping ` fst ` set items \<longrightarrow>
            influential_citation_count (paper_bind ?kw) = JInt 0"
    using absent [of "''influential_citation_count''"] by (simp add: paper_bind_def paper_defaults_def)
  have d4: "''authors'' \<notin> rename paper_field_mapping ` fst ` set items \<longrightarrow>
            authors (paper_bind ?kw) = JList []"
    using absent [of "''authors''"] by (simp add: paper_bind_def paper_defaults_def)
  have d5: "''arxiv_id'' \<notin> rename paper_field_mapping ` fst ` set items \<longrightarrow>
            arxiv_id (paper_bind ?kw) = JNull"
    using absent [of "''arxiv_id''"] by (simp add: paper_bind_def paper_defaults_def)
  have d6: "''doi'' \<notin> rename paper_field_mapping ` fst ` set items \<longrightarrow> doi (paper_bind ?kw) = JNull"
    using absent [of "''doi''"] by (simp add: paper_bind_def paper_defaults_def)
  have d7: "''corpus_id'' \<notin> rename paper_field_mapping ` fst ` set items \<longrightarrow>
            corpus_id (paper_bind ?kw) = JNull"
    using absent [of "''corpus_id''"] by (simp add: paper_bind_def paper_defaults_def)
  have d8: "''citations'' \<notin> rename paper_field_mapping ` fst ` set items \<longrightarrow>
            citations (paper_bind ?kw) = JNull"
    using absent [of "''citations''"] by (simp add: paper_bind_def paper_defaults_def)
  have d9: "''references'' \<notin> rename paper_field_mapping ` fst ` set items \<longrightarrow>
            references (paper_bind ?kw) = JNull"
    using absent [of "''references''"] by (simp add: paper_bind_def paper_defaults_def)
  have d10: "''embedding'' \<notin> rename paper_field_mapping ` fst ` set items \<longrightarrow>
            embedding (paper_bind ?kw) = JNull"
    using absent [of "''embedding''"] by (simp add: paper_bind_def paper_defaults_def)
  have d11: "''tldr'' \<notin> rename paper_field_mapping ` fst ` set items \<longrightarrow> tldr (paper_bind ?kw) = JNull"
    using absent [of "''tldr''"] by (simp add: paper_bind_def paper_defaults_def)
  show ?thesis
    using ok d1 d2 d3 d4 d5 d6 d7 d8 d9 d10 d11 by (intro exI [of _ "paper_bind ?kw"] conjI)
qed
theorem paper_from_dict_defaults_witness:
  "\<exists>p. SemanticScholarPaper_from_dict
         (JObj [(''paperId'', JStr ''X''), (''title'', JStr ''T''), (''abstract'', JNull),
                (''year'', JInt 2023), (''venue'', JStr ''V''), (''url'', JNull),
                (''externalIds'', JNull), (''publicationTypes'', JNull),
                (''publicationDate'', JNull), (''journal'', JNull)]) = Inr p
     \<and> citation_count p = JInt 0 \<and> reference_count p = JInt 0
     \<and> influential_citation_count p = JInt 0 \<and> authors p = JList []
     \<and> arxiv_id p = JNull \<and> doi p = JNull \<and> corpus_id p = JNull
     \<and> citations p = JNull \<and> references p = JNull \<and> embedding p = JNull \<and> tldr p = JNull"
proof -
  let ?items = "[(''paperId'', JStr ''X''), (''title'', JStr ''T''), (''abstract'', JNull),
                (''year'', JInt 2023), (''venue'', JStr ''V''), (''url'', JNull),
                (''externalIds'', JNull), (''publicationTypes'', JNull),
                (''publicationDate'', JNull), (''journal'', JNull)]"
  have keys: "rename paper_field_mapping ` fst ` set ?items =
        {''paper_id'', ''title'', ''abstract'', ''year'', ''venue'', ''url'', ''external_ids'',
         ''publication_types'', ''publication_date'', ''journal''}"
    by (simp add: rename_def paper_field_mapping_def)
  have h: "\<forall>f \<in> set paper_required. map_of paper_defaults f = None \<longrightarrow>
             f \<in> rename paper_field_mapping ` fst ` set ?items"
    unfolding keys by (simp add: paper_required_def paper_defaults_def)
  show ?thesis
    using paper_from_dict_defaults [OF h] unfolding keys by simp
qed

section \<open>Round trip of the paper record\<close>

text \<open>
  Claim C7, as stated: an object that contains \<open>paperId\<close> and \<open>citationCount\<close> is
  normalised. It fails for the object with these two keys only.
\<close>

theorem paper_normalise_counterexample:
  "SemanticScholarPaper_from_dict (JObj [(''paperId'', JStr ''X''), (''citationCount'', JInt 5)])
   = Inl TypeError"
  by (simp add: SemanticScholarPaper_from_dict_def paper_convert_def paper_fill_defaults_def
      paper_defaults_def paper_field_mapping_def rename_def paper_valid_fields_def
      paper_required_def paper_optional_def SemanticScholarPaper_init_def)

lemma paper_to_dict_roundtrip:
  "SemanticScholarPaper_from_dict (SemanticScholarPaper_to_dict p) = Inr p"
  by (simp add: SemanticScholarPaper_from_dict_def SemanticScholarPaper_to_dict_def
      paper_fill_defaults_def paper_convert_def paper_defaults_def paper_field_mapping_def
      SemanticScholarPaper_init_def paper_bind_def paper_valid_fields_def paper_required_def
      paper_optional_def rename_def kwarg_def)

text \<open>
  Claim C7, amended. Take a JSON object in which no two keys name the same field, which
  contains \<open>paperId = X\<close> and \<open>citationCount = n\<close>, and which carries every parameter
  without any default. Normalising it yields a record with identifier \<open>X\<close> and
  citation count \<open>n\<close>. And for every record \<open>q\<close>, normalising the serialised record
  gives \<open>q\<close> back.
\<close>

theorem paper_normalise_roundtrip:
  assumes "distinct (map (rename paper_field_mapping \<circ> fst) items)"
    and "(''paperId'', JStr X) \<in> set items"
    and "(''citationCount'', JInt n) \<in> set items"
    and "\<forall>f \<in> set paper_required. map_of paper_defaults f = None \<longrightarrow>
             f \<in> rename paper_field_mapping ` fst ` set items"
  shows "(\<exists>p. SemanticScholarPaper_from_dict (JObj items) = Inr p
            \<and> paper_id p = JStr X \<and> citation_count p = JInt n)
       \<and> SemanticScholarPaper_from_dict (SemanticScholarPaper_to_dict q) = Inr q"
proof -
  let ?kw = "paper_fill_defaults paper_defaults (paper_convert items [])"
  have ok: "SemanticScholarPaper_from_dict (JObj items) = Inr (paper_bind ?kw)"
    using assms(4) by (intro paper_from_dict_ok) blast
  have r1: "rename paper_field_mapping ''paperId'' = ''paper_id''"
    by (simp add: rename_def paper_field_mapping_def)
  have r2: "rename paper_field_mapping ''citationCount'' = ''citation_count''"
    by (simp add: rename_def paper_field_mapping_def)
  have v1: "rename paper_field_mapping ''paperId'' \<in> set paper_valid_fields"
    unfolding r1 by (simp add: paper_valid_fields_def paper_required_def)
  have v2: "rename paper_field_mapping ''citationCount'' \<in> set paper_valid_fields"
    unfolding r2 by (simp add: paper_valid_fields_def paper_required_def)
  have "kwarg ?kw (rename paper_field_mapping ''paperId'') JNull = JStr X"
    using assms(1,2) v1 by (rule kwarg_present)
  then have id: "paper_id (paper_bind ?kw) = JStr X"
    unfolding r1 by (simp add: paper_bind_def)
  have "kwarg ?kw (rename paper_field_mapping ''citationCount'') JNull = JInt n"
    using assms(1,3) v2 by (rule kwarg_present)
  then have cc: "citation_count (paper_bind ?kw) = JInt n"
    unfolding r2 by (simp add: paper_bind_def)
  show ?thesis using ok id cc paper_to_dict_roundtrip by blast
qed

theorem paper_normalise_roundtrip_witness:
  "(\<exists>p. SemanticScholarPaper_from_dict
         (JObj [(''paperId'', JStr ''X''), (''citationCount'', JInt 5), (''title'', JStr ''T''),
                (''abstract'', JNull), (''year'', JInt 2023), (''venue'', JStr ''V''),
                (''url'', JNull), (''externalIds'', JNull), (''publicationTypes'', JNull),
                (''publicationDate'', JNull), (''journal'', JNull)]) = Inr p
       \<and> paper_id p = JStr ''X'' \<and> citation_count p = JInt 5)
   \<and> SemanticScholarPaper_from_dict (SemanticScholarPaper_to_dict
        (paper_bind [(''paper_id'', JStr ''X''), (''citation_count'', JInt 5)]))
      = Inr (paper_bind [(''paper_id'', JStr ''X''), (''citation_count'', JInt 5)])"
proof -
  let ?items = "[(''paperId'', JStr ''X''), (''citationCount'', JInt 5), (''title'', JStr ''T''),
                (''abstract'', JNull), (''year'', JInt 2023), (''venue'', JStr ''V''),
                (''url'', JNull), (''externalIds'', JNull), (''publicationTypes'', JNull),
                (''publicationDate'', JNull), (''journal'', JNull)]"
  have names: "map (rename paper_field_mapping \<circ> fst) ?items =
        [''paper_id'', ''citation_count'', ''title'', ''abstract'', ''year'', ''venue'', ''url'',
         ''external_ids'', ''publication_types'', ''publication_date'', ''journal'']"
    by (simp add: rename_def paper_field_mapping_def)
  have h1: "distinct (map (rename paper_field_mapping \<circ> fst) ?items)"
    unfolding names by simp
  have h2: "(''paperId'', JStr ''X'') \<in> set ?items" by simp
  have h3: "(''citationCount'', JInt 5) \<in> set ?items" by simp
  have "rename paper_field_mapping ` fst ` set ?items
          = set (map (rename paper_field_mapping \<circ> fst) ?items)"
    by (simp only: set_map image_comp)
  then have keys: "rename paper_field_mapping ` fst ` set ?items =
        set [''paper_id'', ''citation_count'', ''title'', ''abstract'', ''year'', ''venue'', ''url'',
         ''external_ids'', ''publication_types'', ''publication_date'', ''journal'']"
    unfolding names .
  have h4: "\<forall>f \<in> set paper_required. map_of paper_defaults f = None \<longrightarrow>
             f \<in> rename paper_field_mapping ` fst ` set ?items"
    unfolding keys by (simp add: paper_required_def paper_defaults_def)
  show ?thesis
    using paper_normalise_roundtrip [OF h1 h2 h3 h4] by blast
qed

section \<open>The author record keeps unknown keys\<close>

text \<open>
  Claim C10. \<open>AuthorInfo.from_dict\<close> renames keys and filters nothing: when some key of
  the input, after renaming, is not a field of \<open>AuthorInfo\<close>, the construction raises
  \<open>TypeError\<close>. \<open>SemanticScholarPaper.from_dict\<close> drops such keys: it gives the same
  result with and without them.
\<close>

theorem author_from_dict_unknown_key:
  assumes "(key, v) \<in> set items"
    and "rename author_field_mapping key \<notin> set author_fields"
  shows "AuthorInfo_from_dict (JObj items) = Inl TypeError
       \<and> SemanticScholarPaper_from_dict (JObj payload) =
         SemanticScholarPaper_from_dict
           (JObj [(k, x) \<leftarrow> payload. rename paper_field_mapping k \<in> set paper_valid_fields])"
proof -
  have "rename author_field_mapping key \<in> rename author_field_mapping ` fst ` set items"
    using assms(1) by force
  then have "rename author_field_mapping key \<in> fst ` set (author_convert items [])"
    by (simp add: author_convert_keys)
  then have "rename author_field_mapping key \<in> set (map fst (author_convert items []))"
    by simp
  then have "\<exists>k \<in> set (map fst (author_convert items [])). k \<notin> set author_fields"
    using assms(2) by (rule bexI [rotated])
  then have "AuthorInfo_init (author_convert items []) = Inl TypeError"
    unfolding AuthorInfo_init_def by (simp only: if_True)
  then have author: "AuthorInfo_from_dict (JObj items) = Inl TypeError"
    by (simp add: AuthorInfo_from_dict_def)
  have "paper_convert payload [] =
        paper_convert [(k, x) \<leftarrow> payload. rename paper_field_mapping k \<in> set paper_valid_fields] []"
    by (rule paper_convert_filter)
  then have paper: "SemanticScholarPaper_from_dict (JObj payload) =
         SemanticScholarPaper_from_dict
           (JObj [(k, x) \<leftarrow> payload. rename paper_field_mapping k \<in> set paper_valid_fields])"
    by (simp add: SemanticScholarPaper_from_dict_def)
  show ?thesis using author paper by (rule conjI)
qed

theorem author_from_dict_unknown_key_witness:
  "(''url'', JStr ''u'') \<in> set [(''authorId'', JStr ''1''), (''name'', JStr ''A''), (''url'', JStr ''u'')]
   \<and> rename author_field_mapping ''url'' \<notin> set author_fields
   \<and> AuthorInfo_from_dict (JObj [(''authorId'', JStr ''1''), (''name'', JStr ''A''), (''url'', JStr ''u'')])
       = Inl TypeError
   \<and> SemanticScholarPaper_from_dict (JObj [(''paperId'', JStr ''X''), (''isOpenAccess'', JBool True)])
       = SemanticScholarPaper_from_dict (JObj [(''paperId'', JStr ''X'')])"
proof -
  have h1: "(''url'', JStr ''u'')
      \<in> set [(''authorId'', JStr ''1''), (''name'', JStr ''A''), (''url'', JStr ''u'')]"
    by simp
  have h2: "rename author_field_mapping ''url'' \<notin> set author_fields"
    by (simp add: rename_def author_field_mapping_def author_fields_def)
  have f: "[(k, x) \<leftarrow> [(''paperId'', JStr ''X''), (''isOpenAccess'', JBool True)].
              rename paper_field_mapping k \<in> set paper_valid_fields] = [(''paperId'', JStr ''X'')]"
    by (simp add: rename_def paper_field_mapping_def paper_valid_fields_def paper_required_def
        paper_optional_def)
  show ?thesis
    using h1 h2 author_from_dict_unknown_key [OF h1 h2,
        of "[(''paperId'', JStr ''X''), (''isOpenAccess'', JBool True)]"]
    unfolding f by blast
qed

section \<open>Properties of chunking\<close>

lemma ceil_div_covers:
  fixes len n :: nat
  assumes "0 < n"
  shows "len \<le> ((len + n - 1) div n) * n"
proof -
  have "len + n - 1 = ((len + n - 1) div n) * n + (len + n - 1) mod n"
    by simp
  moreover have "(len + n - 1) mod n < n" using assms by simp
  ultimately show ?thesis using assms by linarith
qed

lemma ceil_div_tight:
  fixes len n j :: nat
  assumes "0 < n" and "j < (len + n - 1) div n"
  shows "j * n < len"
proof -
  have "Suc j \<le> (len + n - 1) div n" using assms(2) by simp
  then have "Suc j * n \<le> ((len + n - 1) div n) * n" by (rule mult_le_mono1)
  also have "\<dots> \<le> len + n - 1" by simp
  finally have "j * n + n \<le> len + n - 1" by simp
  then show ?thesis using assms(1) by linarith
qed

lemma concat_slices:
  "concat (map (\<lambda>j. take n (drop (j * n) xs)) [0..<m]) = take (m * n) xs"
proof (induction m)
  case 0
  show ?case by simp
next
  case (Suc m)
  have "take (Suc m * n) xs = take (m * n + n) xs" by (simp add: add.commute)
  also have "\<dots> = take (m * n) xs @ take n (drop (m * n) xs)" by (rule take_add)
  finally show ?case using Suc.IH by simp
qed

lemma chunk_list_positive:
  assumes "0 < chunk_size"
  shows "chunk_list lst chunk_size =
         Inr (map (\<lambda>j. take (nat chunk_size) (drop (j * nat chunk_size) lst))
                  [0..<(length lst + nat chunk_size - 1) div nat chunk_size])"
  using assms by (simp add: chunk_list_def range_step_def comp_def)

text \<open>
  The chunks of \<open>chunk_list\<close> for a positive chunk size: they concatenate to the list,
  none is empty or longer than the chunk size, and all but the last are full.
\<close>

lemma chunk_list_chunks:
  assumes "0 < chunk_size"
  shows "\<exists>chunks. chunk_list lst chunk_size = Inr chunks
       \<and> concat chunks = lst
       \<and> (\<forall>c \<in> set chunks. c \<noteq> [] \<and> length c \<le> nat chunk_size)
       \<and> (\<forall>c \<in> set (butlast chunks). length c = nat chunk_size)"
proof -
  define n where "n = nat chunk_size"
  define m where "m = (length lst + n - 1) div n"
  define chunks where "chunks = map (\<lambda>j. take n (drop (j * n) lst)) [0..<m]"
  have n: "0 < n" using assms by (simp add: n_def)
  have eq: "chunk_list lst chunk_size = Inr chunks"
    unfolding chunks_def m_def n_def using assms by (rule chunk_list_positive)
  have "length lst \<le> m * n" unfolding m_def using n by (rule ceil_div_covers)
  then have whole: "concat chunks = lst"
    unfolding chunks_def concat_slices by simp
  have sizes: "c \<noteq> [] \<and> length c \<le> n" if c: "c \<in> set chunks" for c
  proof -
    obtain j where j: "j < m" "c = take n (drop (j * n) lst)"
      using c unfolding chunks_def by auto
    have "j * n < length lst" using n j(1) unfolding m_def by (rule ceil_div_tight)
    then show ?thesis using n j(2) by simp
  qed
  have full: "length c = n" if c: "c \<in> set (butlast chunks)" for c
  proof -
    have "butlast [0..<m] = [0..<m - 1]" by (cases m) simp_all
    then have "butlast chunks = map (\<lambda>j. take n (drop (j * n) lst)) [0..<m - 1]"
      unfolding chunks_def by (simp only: map_butlast [symmetric])
    then obtain j where j: "j < m - 1" "c = take n (drop (j * n) lst)"
      using c by auto
    have "Suc j < m" using j(1) by simp
    then have "Suc j * n < length lst" using n unfolding m_def by (intro ceil_div_tight)
    then have "n \<le> length lst - j * n" by simp
    then show ?thesis using j(2) by simp
  qed
  show ?thesis using eq whole sizes full unfolding n_def by blast
qed

section \<open>Properties of the metadata client\<close>


text \<open>The back-off durations of the client, \<open>2.0 ** 0\<close>, \<open>2.0 ** 1\<close> and \<open>2.0 ** 2\<close>, are in range.\<close>

lemma client_backoff_in_range:
  assumes "0 \<le> a" and "a < MAX_RETRIES"
  shows "\<exists>v. float_pow rnd BACKOFF_FACTOR a = Inr v"
proof -
  have "a = 0 \<or> a = 1 \<or> a = 2" using assms by (auto simp: MAX_RETRIES_def)
  then show ?thesis
    by (auto simp: float_pow_def BACKOFF_FACTOR_def DBL_OVERFLOW_def)
qed

text \<open>One call of \<open>make_request\<close> sends exactly one request and returns the network's answer.\<close>

lemma make_request_answer:
  "\<exists>s'. make_request rnd net req s = (net (length (sent s)) req, s')
        \<and> sent s' = sent s @ [req] \<and> base_url s' = base_url s"
  by (simp add: make_request_def wait_def session_send_def asyncio_sleep_def Let_def)

lemma asyncio_sleep_client [simp]:
  "sent (asyncio_sleep d s) = sent s" "base_url (asyncio_sleep d s) = base_url s"
  by (simp_all add: asyncio_sleep_def)


text \<open>
  When no attempt answers 200 and no back-off duration is out of range, the retry
  loop returns no response or one that is not 200.
\<close>

lemma retry_never_200:
  assumes quiet: "\<And>w. \<exists>resp. fst (f w) = Inr resp \<and> status resp \<noteq> 200"
  shows "(\<And>a. a \<in> set todo \<Longrightarrow> a < mr \<Longrightarrow> \<exists>v. float_pow rnd bf a = Inr v) \<Longrightarrow>
         \<exists>w' t'. retry_attempts rnd f mr bf todo w t = (Inr None, w', t')
              \<or> (\<exists>resp. retry_attempts rnd f mr bf todo w t = (Inr (Some resp), w', t') \<and> status resp \<noteq> 200)"
proof (induction todo arbitrary: w t)
  case Nil
  show ?case by simp
next
  case (Cons attempt rest)
  obtain resp where r: "fst (f w) = Inr resp" "status resp \<noteq> 200" using quiet by blast
  obtain w1 where fw: "f w = (Inr resp, w1)" using r(1) by (cases "f w") simp
  have rest: "\<exists>w' t'. retry_attempts rnd f mr bf rest w2 t2 = (Inr None, w', t')
              \<or> (\<exists>resp. retry_attempts rnd f mr bf rest w2 t2 = (Inr (Some resp), w', t') \<and> status resp \<noteq> 200)"
    for w2 t2
    using Cons.prems by (intro Cons.IH) auto
  show ?case
  proof (cases "status resp = 429 \<and> attempt < mr")
    case True
    then obtain v where v: "float_pow rnd bf attempt = Inr v"
      using Cons.prems [of attempt] by auto
    have "retry_attempts rnd f mr bf (attempt # rest) w t =
               retry_attempts rnd f mr bf rest (asyncio_sleep v w1)
                 (backed_off v (invoked (Inr resp) t))"
      using fw r(2) True v by simp
    then show ?thesis using rest by simp
  next
    case False
    then have "retry_attempts rnd f mr bf (attempt # rest) w t = (Inr (Some resp), w1, invoked (Inr resp) t)"
      using fw r(2) by auto
    then show ?thesis using r(2) by simp
  qed
qed

text \<open>When every attempt raises, the last exception leaves the retry loop.\<close>

lemma retry_always_raises:
  assumes down: "\<And>n r. net n r = Inl e"
    and fits: "\<And>a. 0 \<le> a \<Longrightarrow> a < mr \<Longrightarrow> \<exists>v. float_pow rnd bf a = Inr v"
  shows "0 \<le> i \<Longrightarrow> i \<le> mr \<Longrightarrow> nat (mr - i) = k \<Longrightarrow>
         \<exists>s' t'. retry_attempts rnd (make_request rnd net req) mr bf [i..mr] s t = (Inl e, s', t')
               \<and> length (sent s') = length (sent s) + k + 1"
proof (induction k arbitrary: i s t)
  case 0
  then have i: "i = mr" by simp
  obtain s1 where s1: "make_request rnd net req s = (Inl e, s1)" "sent s1 = sent s @ [req]"
    using make_request_answer [of rnd net req s] down by auto
  show ?case using i s1 by simp
next
  case (Suc k)
  then have lt: "i < mr" by simp
  obtain s1 where s1: "make_request rnd net req s = (Inl e, s1)" "sent s1 = sent s @ [req]"
    using make_request_answer [of rnd net req s] down by auto
  obtain v where v: "float_pow rnd bf i = Inr v" using fits [of i] Suc.prems(1) lt by blast
  have range: "[i..mr] = i # [i + 1..mr]" using lt by (simp add: upto_rec1)
  let ?s2 = "asyncio_sleep v s1"
  let ?t2 = "backed_off v (invoked (Inl e) t)"
  have "\<exists>s' t'. retry_attempts rnd (make_request rnd net req) mr bf [i + 1..mr] ?s2 ?t2 = (Inl e, s', t')
               \<and> length (sent s') = length (sent ?s2) + k + 1"
    using Suc.prems by (intro Suc.IH) auto
  moreover have "retry_attempts rnd (make_request rnd net req) mr bf [i..mr] s t
        = retry_attempts rnd (make_request rnd net req) mr bf [i + 1..mr] ?s2 ?t2"
    unfolding range using s1(1) lt v by simp
  ultimately show ?case using s1(2) by auto
qed

lemma make_request_never_200:
  assumes "\<forall>n req. \<exists>resp. net n req = Inr resp \<and> status resp \<noteq> 200"
  shows "\<exists>resp. fst (make_request rnd net req s) = Inr resp \<and> status resp \<noteq> 200"
proof -
  obtain resp where "net (length (sent s)) req = Inr resp" "status resp \<noteq> 200"
    using assms by blast
  then show ?thesis using make_request_answer [of rnd net req s] by auto
qed

text \<open>The block shared by the methods, in the three situations the claims speak of.\<close>

lemma fetch_never_200:
  assumes "\<forall>n req. \<exists>resp. net n req = Inr resp \<and> status resp \<noteq> 200"
  shows "fst (fetch rnd net req on_ok absent s) = Inr absent"
proof -
  have fits: "\<exists>v. float_pow rnd BACKOFF_FACTOR a = Inr v"
    if "a \<in> set [0..MAX_RETRIES]" "a < MAX_RETRIES" for a
    using that by (intro client_backoff_in_range) auto
  have "\<exists>s' t'. retry_attempts rnd (make_request rnd net req) MAX_RETRIES BACKOFF_FACTOR [0..MAX_RETRIES] s no_trace
                  = (Inr None, s', t')
              \<or> (\<exists>resp. retry_attempts rnd (make_request rnd net req) MAX_RETRIES BACKOFF_FACTOR
                           [0..MAX_RETRIES] s no_trace = (Inr (Some resp), s', t') \<and> status resp \<noteq> 200)"
    using make_request_never_200 [OF assms] fits by (rule retry_never_200)
  then show ?thesis
    by (auto simp: fetch_def handle_rate_limit_retry_def)
qed

lemma fetch_always_raises:
  assumes "\<forall>n req. net n req = Inl e"
  shows "fst (fetch rnd net req on_ok absent s) = Inl e
       \<and> length (sent (snd (fetch rnd net req on_ok absent s))) = length (sent s) + 4"
proof -
  have "\<exists>s' t'. retry_attempts rnd (make_request rnd net req) MAX_RETRIES BACKOFF_FACTOR [0..MAX_RETRIES] s no_trace
                  = (Inl e, s', t')
               \<and> length (sent s') = length (sent s) + 3 + 1"
    using assms client_backoff_in_range
    by (intro retry_always_raises) (simp_all add: MAX_RETRIES_def)
  then obtain s' t' where run:
      "retry_attempts rnd (make_request rnd net req) MAX_RETRIES BACKOFF_FACTOR [0..MAX_RETRIES] s no_trace
         = (Inl e, s', t')"
      "length (sent s') = length (sent s) + 3 + 1"
    by blast
  have "fetch rnd net req on_ok absent s = (Inl e, s')"
    using run(1) by (simp add: fetch_def handle_rate_limit_retry_def)
  then show ?thesis using run(2) by simp
qed


lemma bulk_chunks_never_200:
  assumes "\<forall>n req. \<exists>resp. net n req = Inr resp \<and> status resp \<noteq> 200"
  shows "fst (bulk_chunks rnd net field_list chunks all_papers s) = Inr all_papers"
proof (induction chunks arbitrary: s)
  case Nil
  show ?case by simp
next
  case (Cons chunk rest)
  let ?run = "fetch rnd net
             (Post (base_url s @ ''/paper/batch'')
                   (JObj [(''ids'', JList (map JStr chunk)), (''fields'', JList (map JStr field_list))]))
             (\<lambda>data. case py_iter data of
                        Inl e \<Rightarrow> Inl e
                      | Inr entries \<Rightarrow> bulk_entries entries all_papers)
             all_papers s"
  have "fst ?run = Inr all_papers" using assms by (rule fetch_never_200)
  then obtain s1 where "?run = (Inr all_papers, s1)" by (cases ?run) simp
  then show ?case using Cons.IH [of s1] by simp
qed

lemma bulk_chunks_always_raises:
  assumes "\<forall>n req. net n req = Inl e"
  shows "fst (bulk_chunks rnd net field_list (chunk # rest) all_papers s) = Inl e
       \<and> length (sent (snd (bulk_chunks rnd net field_list (chunk # rest) all_papers s)))
           = length (sent s) + 4"
proof -
  let ?run = "fetch rnd net
             (Post (base_url s @ ''/paper/batch'')
                   (JObj [(''ids'', JList (map JStr chunk)), (''fields'', JList (map JStr field_list))]))
             (\<lambda>data. case py_iter data of
                        Inl e \<Rightarrow> Inl e
                      | Inr entries \<Rightarrow> bulk_entries entries all_papers)
             all_papers s"
  have run: "fst ?run = Inl e \<and> length (sent (snd ?run)) = length (sent s) + 4"
    using assms by (rule fetch_always_raises)
  then obtain s1 where s1: "?run = (Inl e, s1)" by (cases ?run) simp
  then show ?thesis using run by simp
qed

text \<open>
  Claim C1, as stated, for \<open>get_paper\<close>: when the request raises on every attempt the
  result is absent and nothing is raised. With a network that is down, the exception of
  the fourth attempt reaches the caller.
\<close>

theorem get_paper_transport_failure_counterexample:
  "fst (get_paper exact net_down ''X'' None client0) = Inl TransportError"
proof -
  have attempts: "[0..3::int] = [0, 1, 2, 3]" by (simp add: upto.simps)
  show ?thesis
    by (simp add: get_paper_def fetch_def Let_def net_down_def client0_def SemanticScholarClient_init_def
        handle_rate_limit_retry_def make_request_def session_send_def wait_def float_sub_def
        float_pow_def DBL_OVERFLOW_def exact_def asyncio_sleep_def
        attempts MAX_RETRIES_def BACKOFF_FACTOR_def RateLimiter_init_def
        DEFAULT_RATE_LIMIT_DELAY_def no_trace_def invoked_def backed_off_def)
qed

text \<open>
  Claim C1, amended, for the ten methods of \<open>SemanticScholarClient\<close> that send a
  request: \<open>get_paper\<close>, \<open>get_paper_authors\<close>, \<open>get_paper_citations\<close>,
  \<open>get_paper_references\<close>, \<open>search_papers\<close>, \<open>get_paper_bulk\<close>, \<open>get_author\<close>,
  \<open>get_author_papers\<close>, \<open>search_authors\<close> and \<open>get_paper_recommendations\<close>. When
  every attempt is answered with a status other than 200, each of them returns its
  absent or empty result and raises nothing. When every attempt raises, the executor
  gives up after \<open>MAX_RETRIES + 1 = 4\<close> requests and the exception reaches the caller
  of the method; for \<open>get_paper_bulk\<close> this is so when the list of identifiers is not
  empty, as it sends no request for an empty list and returns the empty list.
\<close>

theorem client_failure_modes:
  "((\<forall>n req. \<exists>resp. net n req = Inr resp \<and> status resp \<noteq> 200) \<longrightarrow>
        fst (get_paper rnd net ident field_list s) = Inr None
      \<and> fst (get_paper_authors rnd net ident field_list s) = Inr []
      \<and> fst (get_paper_citations rnd net ident field_list limit_arg offset_arg s) = Inr []
      \<and> fst (get_paper_references rnd net ident field_list limit_arg offset_arg s) = Inr []
      \<and> fst (search_papers rnd net query y v fos pt mcc limit_arg offset_arg field_list s)
          = Inr empty_search_result
      \<and> fst (get_paper_bulk rnd net paper_ids field_list s) = Inr []
      \<and> fst (get_author rnd net ident field_list s) = Inr None
      \<and> fst (get_author_papers rnd net ident field_list limit_arg offset_arg s) = Inr []
      \<and> fst (search_authors rnd net query field_list limit_arg offset_arg s) = Inr []
      \<and> fst (get_paper_recommendations rnd net ident field_list limit_arg s) = Inr [])
   \<and> ((\<forall>n req. net n req = Inl e) \<longrightarrow>
        fst (get_paper rnd net ident field_list s) = Inl e
      \<and> length (sent (snd (get_paper rnd net ident field_list s))) = length (sent s) + 4
      \<and> fst (get_paper_authors rnd net ident field_list s) = Inl e
      \<and> length (sent (snd (get_paper_authors rnd net ident field_list s))) = length (sent s) + 4
      \<and> fst (get_paper_citations rnd net ident field_list limit_arg offset_arg s) = Inl e
      \<and> length (sent (snd (get_paper_citations rnd net ident field_list limit_arg offset_arg s)))
          = length (sent s) + 4
      \<and> fst (get_paper_references rnd net ident field_list limit_arg offset_arg s) = Inl e
      \<and> length (sent (snd (get_paper_references rnd net ident field_list limit_arg offset_arg s)))
          = length (sent s) + 4
      \<and> fst (search_papers rnd net query y v fos pt mcc limit_arg offset_arg field_list s) = Inl e
      \<and> length (sent (snd (search_papers rnd net query y v fos pt mcc limit_arg offset_arg field_list s)))
          = length (sent s) + 4
      \<and> (paper_ids \<noteq> [] \<longrightarrow>
            fst (get_paper_bulk rnd net paper_ids field_list s) = Inl e
          \<and> length (sent (snd (get_paper_bulk rnd net paper_ids field_list s))) = length (sent s) + 4)
      \<and> get_paper_bulk rnd net [] field_list s = (Inr [], s)
      \<and> fst (get_author rnd net ident field_list s) = Inl e
      \<and> length (sent (snd (get_author rnd net ident field_list s))) = length (sent s) + 4
      \<and> fst (get_author_papers rnd net ident field_list limit_arg offset_arg s) = Inl e
      \<and> length (sent (snd (get_author_papers rnd net ident field_list limit_arg offset_arg s)))
          = length (sent s) + 4
      \<and> fst (search_authors rnd net query field_list limit_arg offset_arg s) = Inl e
      \<and> length (sent (snd (search_authors rnd net query field_list limit_arg offset_arg s)))
          = length (sent s) + 4
      \<and> fst (get_paper_recommendations rnd net ident field_list limit_arg s) = Inl e
      \<and> length (sent (snd (get_paper_recommendations rnd net ident field_list limit_arg s)))
          = length (sent s) + 4)"
proof (intro conjI impI)
  {
    assume quiet: "\<forall>n req. \<exists>resp. net n req = Inr resp \<and> status resp \<noteq> 200"
    note absent = fetch_never_200 [OF quiet]
    show "fst (get_paper rnd net ident field_list s) = Inr None"
      by (simp add: get_paper_def Let_def absent)
    show "fst (get_paper_authors rnd net ident field_list s) = Inr []"
      by (simp add: get_paper_authors_def Let_def absent)
    show "fst (get_paper_citations rnd net ident field_list limit_arg offset_arg s) = Inr []"
      by (simp add: get_paper_citations_def Let_def absent)
    show "fst (get_paper_references rnd net ident field_list limit_arg offset_arg s) = Inr []"
      by (simp add: get_paper_references_def Let_def absent)
    show "fst (search_papers rnd net query y v fos pt mcc limit_arg offset_arg field_list s)
            = Inr empty_search_result"
      by (simp add: search_papers_def Let_def absent)
    obtain chunks where "chunk_list paper_ids BATCH_SIZE = Inr chunks"
      using chunk_list_chunks [of BATCH_SIZE paper_ids] by (auto simp: BATCH_SIZE_def)
    then show "fst (get_paper_bulk rnd net paper_ids field_list s) = Inr []"
      using bulk_chunks_never_200 [OF quiet] by (simp add: get_paper_bulk_def)
    show "fst (get_author rnd net ident field_list s) = Inr None"
      by (simp add: get_author_def Let_def absent)
    show "fst (get_author_papers rnd net ident field_list limit_arg offset_arg s) = Inr []"
      by (simp add: get_author_papers_def Let_def absent)
    show "fst (search_authors rnd net query field_list limit_arg offset_arg s) = Inr []"
      by (simp add: search_authors_def Let_def absent)
    show "fst (get_paper_recommendations rnd net ident field_list limit_arg s) = Inr []"
      by (simp add: get_paper_recommendations_def Let_def absent)
  }
  show "get_paper_bulk rnd net [] field_list s = (Inr [], s)"
    by (simp add: get_paper_bulk_def chunk_list_def range_step_def BATCH_SIZE_def)
  {
    assume down: "\<forall>n req. net n req = Inl e"
    note raised = fetch_always_raises [OF down]
    show "fst (get_paper rnd net ident field_list s) = Inl e"
      by (simp add: get_paper_def Let_def raised)
    show "length (sent (snd (get_paper rnd net ident field_list s))) = length (sent s) + 4"
      by (simp add: get_paper_def Let_def raised)
    show "fst (get_paper_authors rnd net ident field_list s) = Inl e"
      by (simp add: get_paper_authors_def Let_def raised)
    show "length (sent (snd (get_paper_authors rnd net ident field_list s))) = length (sent s) + 4"
      by (simp add: get_paper_authors_def Let_def raised)
    show "fst (get_paper_citations rnd net ident field_list limit_arg offset_arg s) = Inl e"
      by (simp add: get_paper_citations_def Let_def raised)
    show "length (sent (snd (get_paper_citations rnd net ident field_list limit_arg offset_arg s)))
          = length (sent s) + 4"
      by (simp add: get_paper_citations_def Let_def raised)
    show "fst (get_paper_references rnd net ident field_list limit_arg offset_arg s) = Inl e"
      by (simp add: get_paper_references_def Let_def raised)
    show "length (sent (snd (get_paper_references rnd net ident field_list limit_arg offset_arg s)))
          = length (sent s) + 4"
      by (simp add: get_paper_references_def Let_def raised)
    show "fst (search_papers rnd net query y v fos pt mcc limit_arg offset_arg field_list s) = Inl e"
      by (simp add: search_papers_def Let_def raised)
    show "length (sent (snd (search_papers rnd net query y v fos pt mcc limit_arg offset_arg field_list s)))
          = length (sent s) + 4"
      by (simp add: search_papers_def Let_def raised)
    show "fst (get_author rnd net ident field_list s) = Inl e"
      by (simp add: get_author_def Let_def raised)
    show "length (sent (snd (get_author rnd net ident field_list s))) = length (sent s) + 4"
      by (simp add: get_author_def Let_def raised)
    show "fst (get_author_papers rnd net ident field_list limit_arg offset_arg s) = Inl e"
      by (simp add: get_author_papers_def Let_def raised)
    show "length (sent (snd (get_author_papers rnd net ident field_list limit_arg offset_arg s)))
          = length (sent s) + 4"
      by (simp add: get_author_papers_def Let_def raised)
    show "fst (search_authors rnd net query field_list limit_arg offset_arg s) = Inl e"
      by (simp add: search_authors_def Let_def raised)
    show "length (sent (snd (search_authors rnd net query field_list limit_arg offset_arg s)))
          = length (sent s) + 4"
      by (simp add: search_authors_def Let_def raised)
    show "fst (get_paper_recommendations rnd net ident field_list limit_arg s) = Inl e"
      by (simp add: get_paper_recommendations_def Let_def raised)
    show "length (sent (snd (get_paper_recommendations rnd net ident field_list limit_arg s)))
          = length (sent s) + 4"
      by (simp add: get_paper_recommendations_def Let_def raised)
    {
      assume ids: "paper_ids \<noteq> []"
      obtain chunks where chunks: "chunk_list paper_ids BATCH_SIZE = Inr chunks" "concat chunks = paper_ids"
        using chunk_list_chunks [of BATCH_SIZE paper_ids] by (auto simp: BATCH_SIZE_def)
      then obtain chunk rest where split: "chunks = chunk # rest"
        using ids by (cases chunks) auto
      have run: "get_paper_bulk rnd net paper_ids field_list s =
                   bulk_chunks rnd net (case field_list of None \<Rightarrow> PAPER_FIELDS | Some fs \<Rightarrow> fs)
                     (chunk # rest) [] s"
        using chunks(1) unfolding split by (simp add: get_paper_bulk_def del: bulk_chunks.simps)
      show "fst (get_paper_bulk rnd net paper_ids field_list s) = Inl e"
        unfolding run using bulk_chunks_always_raises [OF down] by blast
      show "length (sent (snd (get_paper_bulk rnd net paper_ids field_list s))) = length (sent s) + 4"
        unfolding run using bulk_chunks_always_raises [OF down] by blast
    }
  }
qed

theorem client_failure_modes_witness:
  "(\<forall>n req. \<exists>resp. net_unavailable n req = Inr resp \<and> status resp \<noteq> 200)
   \<and> fst (get_paper exact net_unavailable ''X'' None client0) = Inr None
   \<and> fst (get_paper_authors exact net_unavailable ''X'' None client0) = Inr []
   \<and> fst (get_paper_citations exact net_unavailable ''X'' None 1000 0 client0) = Inr []
   \<and> fst (get_paper_references exact net_unavailable ''X'' None 1000 0 client0) = Inr []
   \<and> fst (search_papers exact net_unavailable ''graphs'' None None None None None 1000 0 None client0)
       = Inr empty_search_result
   \<and> fst (get_paper_bulk exact net_unavailable [''id1'', ''id2''] None client0) = Inr []
   \<and> fst (get_author exact net_unavailable ''X'' None client0) = Inr None
   \<and> fst (get_author_papers exact net_unavailable ''X'' None 1000 0 client0) = Inr []
   \<and> fst (search_authors exact net_unavailable ''graphs'' None 1000 0 client0) = Inr []
   \<and> fst (get_paper_recommendations exact net_unavailable ''X'' None 1000 client0) = Inr []
   \<and> (\<forall>n req. net_down n req = Inl TransportError)
   \<and> fst (get_paper exact net_down ''X'' None client0) = Inl TransportError
   \<and> length (sent (snd (get_paper exact net_down ''X'' None client0))) = length (sent client0) + 4
   \<and> fst (get_paper_authors exact net_down ''X'' None client0) = Inl TransportError
   \<and> fst (get_paper_citations exact net_down ''X'' None 1000 0 client0) = Inl TransportError
   \<and> fst (get_paper_references exact net_down ''X'' None 1000 0 client0) = Inl TransportError
   \<and> fst (search_papers exact net_down ''graphs'' None None None None None 1000 0 None client0)
       = Inl TransportError
   \<and> fst (get_paper_bulk exact net_down [''id1'', ''id2''] None client0) = Inl TransportError
   \<and> length (sent (snd (get_paper_bulk exact net_down [''id1'', ''id2''] None client0)))
       = length (sent client0) + 4
   \<and> fst (get_author exact net_down ''X'' None client0) = Inl TransportError
   \<and> fst (get_author_papers exact net_down ''X'' None 1000 0 client0) = Inl TransportError
   \<and> fst (search_authors exact net_down ''graphs'' None 1000 0 client0) = Inl TransportError
   \<and> fst (get_paper_recommendations exact net_down ''X'' None 1000 client0) = Inl TransportError"
proof -
  have h1: "\<forall>n req. \<exists>resp. net_unavailable n req = Inr resp \<and> status resp \<noteq> 200"
    by (simp add: net_unavailable_def)
  have h2: "\<forall>n req. net_down n req = Inl TransportError"
    by (simp add: net_down_def)
  have ids: "[''id1'', ''id2''] \<noteq> ([] :: string list)" by simp
  note quiet = client_failure_modes [where net = net_unavailable and rnd = exact and ident = "''X''"
      and field_list = None and s = client0 and query = "''graphs''" and y = None and v = None
      and fos = None and pt = None and mcc = None and limit_arg = 1000 and offset_arg = 0
      and paper_ids = "[''id1'', ''id2'']" and e = TransportError]
  note down = client_failure_modes [where net = net_down and rnd = exact and ident = "''X''"
      and field_list = None and s = client0 and query = "''graphs''" and y = None and v = None
      and fos = None and pt = None and mcc = None and limit_arg = 1000 and offset_arg = 0
      and paper_ids = "[''id1'', ''id2'']" and e = TransportError]
  show ?thesis
    using h1 h2 ids quiet down by blast
qed

section \<open>Bulk fetch\<close>








section \<open>Properties of the feed parser\<close>

text \<open>
  Claim C8, as stated, for the title: the record holds the title whitespace-collapsed.
  For a title wrapped over two lines, \<open>A\<close>, newline, two spaces, \<open>B\<close>, the parser
  yields \<open>A\<close>, three spaces, \<open>B\<close>; collapsed it is \<open>A B\<close>.
\<close>

theorem parse_entry_title_counterexample:
  "map_option ArxivPaper.title (parse_entry wrapped_title_entry) = Some ''A   B''
   \<and> spec_whitespace_collapsed (''A'' @ [newline] @ ''  B'') = ''A B''"
  by (simp add: parse_entry_def wrapped_title_entry_def entry_title_def entry_abstract_def
      entry_arxiv_id_def find_elem_def findall_def atom_def strip_def py_isspace_def newline_def
      replace_char_def spec_whitespace_collapsed_def)

lemma find_elem_only_title:
  "find_elem path (Element etag eattrs etext [Element (atom ''title'') tattrs ttext tkids]) =
   (if path = atom ''title'' then Some (Element (atom ''title'') tattrs ttext tkids) else None)"
  by (auto simp: find_elem_def)

lemma findall_only_title:
  "path \<noteq> atom ''title'' \<Longrightarrow> findall path (Element etag eattrs etext [Element (atom ''title'') tattrs ttext tkids]) = []"
  by (simp add: findall_def)

lemma atom_inject [simp]: "atom a = atom b \<longleftrightarrow> a = b"
  by (simp add: atom_def)

text \<open>
  Claim C8, amended. An entry whose only child is a \<open>title\<close> element with text \<open>t\<close>
  yields the record with title \<open>t\<close> stripped of leading and trailing whitespace and
  with every newline replaced by a space (inner runs of whitespace stay), no authors,
  empty abstract, empty identifier, empty PDF URL and no categories. Whenever an entry
  without \<open>title\<close> element yields a record, its title is \<open>Unknown Title\<close>; whenever an
  entry without \<open>summary\<close> element yields a record, its abstract is empty; an entry
  without children yields a record.
\<close>

theorem parse_entry_minimal:
  "parse_entry (Element etag eattrs etext [Element (atom ''title'') tattrs (Some t) tkids]) =
     Some \<lparr>ArxivPaper.title = replace_char newline CHR '' '' (strip t),
           ArxivPaper.authors = [],
           ArxivPaper.abstract = [],
           ArxivPaper.arxiv_id = [],
           published_date = Some [],
           pdf_url = [],
           categories = []\<rparr>
   \<and> (find_elem (atom ''title'') entry = None \<and> parse_entry entry = Some p \<longrightarrow>
        ArxivPaper.title p = ''Unknown Title'')
   \<and> (find_elem (atom ''summary'') entry = None \<and> parse_entry entry = Some p \<longrightarrow>
        ArxivPaper.abstract p = [])
   \<and> parse_entry (Element etag eattrs etext []) =
     Some \<lparr>ArxivPaper.title = ''Unknown Title'',
           ArxivPaper.authors = [],
           ArxivPaper.abstract = [],
           ArxivPaper.arxiv_id = [],
           published_date = Some [],
           pdf_url = [],
           categories = []\<rparr>"
proof (intro conjI impI)
  show "parse_entry (Element etag eattrs etext [Element (atom ''title'') tattrs (Some t) tkids]) =
     Some \<lparr>ArxivPaper.title = replace_char newline CHR '' '' (strip t),
           ArxivPaper.authors = [],
           ArxivPaper.abstract = [],
           ArxivPaper.arxiv_id = [],
           published_date = Some [],
           pdf_url = [],
           categories = []\<rparr>"
    by (simp add: parse_entry_def entry_title_def entry_abstract_def entry_arxiv_id_def
        entry_published_def entry_pdf_url_def entry_categories_def find_elem_only_title
        findall_only_title)
  show "ArxivPaper.title p = ''Unknown Title''"
    if "find_elem (atom ''title'') entry = None \<and> parse_entry entry = Some p"
    using that by (auto simp: parse_entry_def entry_title_def split: option.splits)
  show "ArxivPaper.abstract p = []"
    if "find_elem (atom ''summary'') entry = None \<and> parse_entry entry = Some p"
    using that by (auto simp: parse_entry_def entry_abstract_def split: option.splits)
  show "parse_entry (Element etag eattrs etext []) =
     Some \<lparr>ArxivPaper.title = ''Unknown Title'',
           ArxivPaper.authors = [],
           ArxivPaper.abstract = [],
           ArxivPaper.arxiv_id = [],
           published_date = Some [],
           pdf_url = [],
           categories = []\<rparr>"
    by (simp add: parse_entry_def entry_title_def entry_abstract_def entry_arxiv_id_def
        entry_published_def entry_pdf_url_def entry_categories_def find_elem_def findall_def)
qed

theorem parse_entry_minimal_witness:
  "find_elem (atom ''title'') (Element (atom ''entry'') [] None
       [Element (atom ''published'') [] (Some ''2023-01-30T12:00:00Z'') []]) = None
   \<and> find_elem (atom ''summary'') (Element (atom ''entry'') [] None
       [Element (atom ''published'') [] (Some ''2023-01-30T12:00:00Z'') []]) = None
   \<and> parse_entry (Element (atom ''entry'') [] None
       [Element (atom ''published'') [] (Some ''2023-01-30T12:00:00Z'') []])
     = Some \<lparr>ArxivPaper.title = ''Unknown Title'',
             ArxivPaper.authors = [],
             ArxivPaper.abstract = [],
             ArxivPaper.arxiv_id = [],
             published_date = Some ''2023-01-30T12:00:00Z'',
             pdf_url = [],
             categories = []\<rparr>
   \<and> parse_entry (Element (atom ''entry'') [] None
       [Element (atom ''title'') [] (Some ''  Minimal Paper '') []])
     = Some \<lparr>ArxivPaper.title = ''Minimal Paper'',
             ArxivPaper.authors = [],
             ArxivPaper.abstract = [],
             ArxivPaper.arxiv_id = [],
             published_date = Some [],
             pdf_url = [],
             categories = []\<rparr>"
proof -
  let ?e = "Element (atom ''entry'') [] None
       [Element (atom ''published'') [] (Some ''2023-01-30T12:00:00Z'') []]"
  let ?p = "\<lparr>ArxivPaper.title = ''Unknown Title'',
             ArxivPaper.authors = [],
             ArxivPaper.abstract = [],
             ArxivPaper.arxiv_id = [],
             published_date = Some ''2023-01-30T12:00:00Z'',
             pdf_url = [],
             categories = []\<rparr>"
  have h1: "find_elem (atom ''title'') ?e = None" by (simp add: find_elem_def)
  have h2: "find_elem (atom ''summary'') ?e = None" by (simp add: find_elem_def)
  have h3: "parse_entry ?e = Some ?p"
    by (simp add: parse_entry_def entry_title_def entry_abstract_def entry_arxiv_id_def
        entry_published_def entry_pdf_url_def entry_categories_def find_elem_def findall_def
        entry_authors.simps)
  have s: "replace_char newline CHR '' '' (strip ''  Minimal Paper '') = ''Minimal Paper''"
    by (simp add: strip_def replace_char_def py_isspace_def newline_def)
  show ?thesis
    using h1 h2 h3
      parse_entry_minimal [of "atom ''entry''" "[]" None "[]" "''  Minimal Paper ''" "[]" ?e ?p]
    unfolding s by simp
qed

section \<open>Documents that are not well-formed\<close>

text \<open>
  Claim C9, as stated: on a string that is not well-formed XML neither parser raises.
  The string \<open><a>\<close>, lone surrogate \<open>U+D800\<close>, \<open></a>\<close> is not well-formed XML; on it
  \<open>ET.fromstring\<close> raises \<open>UnicodeEncodeError\<close>, which is not a \<open>ParseError\<close>, and the
  exception leaves both parsers.
\<close>

theorem malformed_xml_surrogate_counterexample:
  "parse_arxiv_response sample_fromstring surrogate_doc = Inl UnicodeEncodeError
   \<and> parse_arxiv_search_response sample_fromstring surrogate_doc = Inl UnicodeEncodeError"
  by (simp add: parse_arxiv_response_def parse_arxiv_search_response_def sample_fromstring_def
      surrogate_doc_def code_points_def)

text \<open>
  Claim C9, amended. When \<open>ET.fromstring\<close> raises \<open>ParseError\<close> on the document, the
  single-fetch parser returns \<open>None\<close> and the search parser returns the empty list;
  neither raises. Any other exception \<open>ET.fromstring\<close> raises leaves both parsers.
\<close>

theorem malformed_xml_is_absent:
  "(fromstring xml_content = Inl ParseError \<longrightarrow>
        parse_arxiv_response fromstring xml_content = Inr None
      \<and> parse_arxiv_search_response fromstring xml_content = Inr [])
   \<and> (fromstring xml_content = Inl e \<and> e \<noteq> ParseError \<longrightarrow>
        parse_arxiv_response fromstring xml_content = Inl e
      \<and> parse_arxiv_search_response fromstring xml_content = Inl e)"
  by (simp add: parse_arxiv_response_def parse_arxiv_search_response_def)

theorem malformed_xml_is_absent_witness:
  "sample_fromstring unclosed_feed = Inl ParseError
   \<and> parse_arxiv_response sample_fromstring unclosed_feed = Inr None
   \<and> parse_arxiv_search_response sample_fromstring unclosed_feed = Inr []
   \<and> sample_fromstring surrogate_doc = Inl UnicodeEncodeError
   \<and> UnicodeEncodeError \<noteq> ParseError
   \<and> parse_arxiv_response sample_fromstring surrogate_doc = Inl UnicodeEncodeError
   \<and> parse_arxiv_search_response sample_fromstring surrogate_doc = Inl UnicodeEncodeError"
proof -
  have h1: "sample_fromstring unclosed_feed = Inl ParseError"
    by (simp add: sample_fromstring_def unclosed_feed_def empty_feed_def code_points_def)
  have h2: "sample_fromstring surrogate_doc = Inl UnicodeEncodeError"
    by (simp add: sample_fromstring_def surrogate_doc_def code_points_def)
  show ?thesis
    using h1 h2
      malformed_xml_is_absent [of sample_fromstring unclosed_feed UnicodeEncodeError]
      malformed_xml_is_absent [of sample_fromstring surrogate_doc UnicodeEncodeError]
    by simp
qed

end
